theory Spec2Isabelle
  imports Main
begin

chapter \<open>The program\<close>

section \<open>Values and exceptions of the Python program\<close>

text \<open>
  \<^verbatim>\<open>app.py\<close> works on decoded JSON: the bodies of the two vendor APIs, the bodies of the
  HTTP requests, and the dictionaries it builds itself. A decoded JSON value is one of
  Python's \<^verbatim>\<open>None\<close>, \<^verbatim>\<open>bool\<close>, number, \<^verbatim>\<open>str\<close>, \<^verbatim>\<open>list\<close> and \<^verbatim>\<open>dict\<close>. A \<^verbatim>\<open>dict\<close> is an
  association list in insertion order; the decoder keeps one binding per key, and
  \<open>map_of\<close> reads the first one. Numbers are integers here: the program never
  computes with a number of a response, so a float behaves as an integer does at every
  operation modelled below except in its printed form.

  Strings are \<open>string\<close>; the case conversions and the whitespace test are those of
  Python on ASCII, and a character outside ASCII has no case and is no whitespace.
\<close>

datatype json =
    JNull
  | JBool bool
  | JNum int
  | JStr string
  | JList "json list"
  | JDict "(string \<times> json) list"

datatype exn =
    TypeError
  | KeyError
  | IndexError
  | AttributeError
  | ValueError
  | RequestException
  | OtherException

type_synonym 'a result = "exn + 'a"

definition ebind :: "'a result \<Rightarrow> ('a \<Rightarrow> 'b result) \<Rightarrow> 'b result" where
  "ebind m f = (case m of Inl e \<Rightarrow> Inl e | Inr x \<Rightarrow> f x)"

subsection \<open>Characters and strings\<close>

definition is_digit :: "char \<Rightarrow> bool" where
  "is_digit c = (48 \<le> (of_char c :: nat) \<and> (of_char c :: nat) \<le> 57)"

definition is_upper :: "char \<Rightarrow> bool" where
  "is_upper c = (65 \<le> (of_char c :: nat) \<and> (of_char c :: nat) \<le> 90)"

definition is_lower :: "char \<Rightarrow> bool" where
  "is_lower c = (97 \<le> (of_char c :: nat) \<and> (of_char c :: nat) \<le> 122)"

definition is_space :: "char \<Rightarrow> bool" where
  \<comment> \<open>\<^verbatim>\<open>str.isspace\<close> on ASCII: tab, LF, VT, FF, CR, FS, GS, RS, US and the space.\<close>
  "is_space c = ((of_char c :: nat) \<in> {9, 10, 11, 12, 13, 28, 29, 30, 31, 32})"

definition lower_char :: "char \<Rightarrow> char" where
  "lower_char c = (if is_upper c then char_of ((of_char c :: nat) + 32) else c)"

definition upper_char :: "char \<Rightarrow> char" where
  "upper_char c = (if is_lower c then char_of ((of_char c :: nat) - 32) else c)"

definition lower :: "string \<Rightarrow> string" where
  "lower s = map lower_char s"

definition upper :: "string \<Rightarrow> string" where
  "upper s = map upper_char s"

definition strip :: "string \<Rightarrow> string" where
  \<comment> \<open>\<^verbatim>\<open>s.strip()\<close>: whitespace removed at both ends.\<close>
  "strip s = rev (dropWhile is_space (rev (dropWhile is_space s)))"

fun startswith :: "string \<Rightarrow> string \<Rightarrow> bool" where
  "startswith s [] = True"
| "startswith [] (p # ps) = False"
| "startswith (c # cs) (p # ps) = (c = p \<and> startswith cs ps)"

definition startswith_any :: "string \<Rightarrow> string list \<Rightarrow> bool" where
  \<comment> \<open>\<^verbatim>\<open>s.startswith((p1, p2, ...))\<close> with a tuple of prefixes.\<close>
  "startswith_any s ps = list_ex (startswith s) ps"

fun title_from :: "bool \<Rightarrow> string \<Rightarrow> string" where
  "title_from prev [] = []"
| "title_from prev (c # cs) =
     (if is_upper c \<or> is_lower c
      then (if prev then lower_char c else upper_char c) # title_from True cs
      else c # title_from False cs)"

definition title :: "string \<Rightarrow> string" where
  \<comment> \<open>\<^verbatim>\<open>s.title()\<close>: a letter that follows a letter is lowered, any other letter is raised.\<close>
  "title s = title_from False s"

fun replace :: "string \<Rightarrow> string \<Rightarrow> string" where
  "replace [] tag = []"
| "replace (c # cs) tag =
     (if tag \<noteq> [] \<and> startswith (c # cs) tag
      then replace (drop (length tag) (c # cs)) tag
      else c # replace cs tag)"

fun join :: "string \<Rightarrow> string list \<Rightarrow> string" where
  "join sep [] = []"
| "join sep [x] = x"
| "join sep (x # y # ys) = x @ sep @ join sep (y # ys)"

subsection \<open>Operators on decoded values\<close>

definition truthy :: "json \<Rightarrow> bool" where
  "truthy v = (case v of
       JNull \<Rightarrow> False
     | JBool b \<Rightarrow> b
     | JNum n \<Rightarrow> n \<noteq> 0
     | JStr s \<Rightarrow> s \<noteq> []
     | JList xs \<Rightarrow> xs \<noteq> []
     | JDict kvs \<Rightarrow> kvs \<noteq> [])"

fun contains_str :: "string \<Rightarrow> string \<Rightarrow> bool" where
  "contains_str [] k = (k = [])"
| "contains_str (c # cs) k = (startswith (c # cs) k \<or> contains_str cs k)"

definition py_in :: "string \<Rightarrow> json \<Rightarrow> bool result" where
  \<comment> \<open>\<^verbatim>\<open>"k" in v\<close>: a key of a dict, an element of a list, a substring of a string.\<close>
  "py_in k v = (case v of
       JDict kvs \<Rightarrow> Inr (map_of kvs k \<noteq> None)
     | JList xs \<Rightarrow> Inr (List.member xs (JStr k))
     | JStr s \<Rightarrow> Inr (contains_str s k)
     | _ \<Rightarrow> Inl TypeError)"

definition getitem :: "json \<Rightarrow> string \<Rightarrow> json result" where
  \<comment> \<open>\<^verbatim>\<open>v["k"]\<close>\<close>
  "getitem v k = (case v of
       JDict kvs \<Rightarrow> (case map_of kvs k of None \<Rightarrow> Inl KeyError | Some x \<Rightarrow> Inr x)
     | _ \<Rightarrow> Inl TypeError)"

definition getindex :: "json \<Rightarrow> nat \<Rightarrow> json result" where
  \<comment> \<open>\<^verbatim>\<open>v[i]\<close> with a literal index \<open>i \<ge> 0\<close>; a decoded dict has no integer key.\<close>
  "getindex v i = (case v of
       JList xs \<Rightarrow> if i < length xs then Inr (xs ! i) else Inl IndexError
     | JStr s \<Rightarrow> if i < length s then Inr (JStr [s ! i]) else Inl IndexError
     | JDict kvs \<Rightarrow> Inl KeyError
     | _ \<Rightarrow> Inl TypeError)"

definition py_iter :: "json \<Rightarrow> json list result" where
  \<comment> \<open>the items a \<^verbatim>\<open>for\<close> loop visits\<close>
  "py_iter v = (case v of
       JList xs \<Rightarrow> Inr xs
     | JStr s \<Rightarrow> Inr (map (\<lambda>c. JStr [c]) s)
     | JDict kvs \<Rightarrow> Inr (map (\<lambda>kv. JStr (fst kv)) kvs)
     | _ \<Rightarrow> Inl TypeError)"

definition py_get :: "json \<Rightarrow> string \<Rightarrow> json \<Rightarrow> json result" where
  \<comment> \<open>\<^verbatim>\<open>v.get("k", default)\<close>\<close>
  "py_get v k d = (case v of
       JDict kvs \<Rightarrow> Inr (case map_of kvs k of None \<Rightarrow> d | Some x \<Rightarrow> x)
     | _ \<Rightarrow> Inl AttributeError)"

fun for_loop :: "('s \<Rightarrow> 'a \<Rightarrow> 's result) \<Rightarrow> 'a list \<Rightarrow> 's \<Rightarrow> 's result" where
  "for_loop body [] s = Inr s"
| "for_loop body (x # xs) s = ebind (body s x) (for_loop body xs)"

definition for_in :: "('s \<Rightarrow> json \<Rightarrow> 's result) \<Rightarrow> json \<Rightarrow> 's \<Rightarrow> 's result" where
  \<comment> \<open>\<^verbatim>\<open>for x in v: body\<close>, the loop's variables threaded as \<open>s\<close>\<close>
  "for_in body v s = ebind (py_iter v) (\<lambda>xs. for_loop body xs s)"

subsection \<open>Printed form of a value\<close>

fun digits_of :: "nat \<Rightarrow> string" where
  "digits_of n =
     (if n < 10 then [char_of (48 + n)]
      else digits_of (n div 10) @ [char_of (48 + n mod 10)])"

declare digits_of.simps [simp del]

definition str_of_int :: "int \<Rightarrow> string" where
  "str_of_int i = (if i < 0 then CHR ''-'' # digits_of (nat (- i)) else digits_of (nat i))"

definition hex_digit :: "nat \<Rightarrow> char" where
  "hex_digit d = (if d < 10 then char_of (48 + d) else char_of (87 + d))"

definition repr_char :: "char \<Rightarrow> char \<Rightarrow> string" where
  "repr_char q c =
     (if c = CHR 0x5C then [CHR 0x5C, CHR 0x5C]
      else if c = q then [CHR 0x5C, q]
      else if c = CHR 0x0A then [CHR 0x5C, CHR ''n'']
      else if c = CHR 0x0D then [CHR 0x5C, CHR ''r'']
      else if c = CHR 0x09 then [CHR 0x5C, CHR ''t'']
      else if (of_char c :: nat) < 32 \<or> (of_char c :: nat) = 127
      then [CHR 0x5C, CHR ''x'', hex_digit ((of_char c :: nat) div 16),
            hex_digit ((of_char c :: nat) mod 16)]
      else [c])"

definition repr_str :: "string \<Rightarrow> string" where
  "repr_str s =
     (let q = (if CHR 0x27 \<in> set s \<and> CHR 0x22 \<notin> set s then CHR 0x22 else CHR 0x27)
      in q # concat (map (repr_char q) s) @ [q])"

fun repr :: "json \<Rightarrow> string" where
  "repr JNull = ''None''"
| "repr (JBool b) = (if b then ''True'' else ''False'')"
| "repr (JNum n) = str_of_int n"
| "repr (JStr s) = repr_str s"
| "repr (JList xs) = ''['' @ join '', '' (map repr xs) @ '']''"
| "repr (JDict kvs) =
     ''{'' @ join '', '' (map (\<lambda>kv. repr_str (fst kv) @ '': '' @ repr (snd kv)) kvs) @ ''}''"

definition py_str :: "json \<Rightarrow> string" where
  \<comment> \<open>what an f-string inserts for \<^verbatim>\<open>{v}\<close>\<close>
  "py_str v = (case v of JStr s \<Rightarrow> s | _ \<Rightarrow> repr v)"

section \<open>The audio manager\<close>

definition base_audio_url :: string where
  "base_audio_url = ''https://media.merriam-webster.com/audio/prons/en/us/mp3/''"

definition digit_prefixes :: "string list" where
  \<comment> \<open>the tuple \<^verbatim>\<open>('0', '1', ..., '9')\<close>\<close>
  "digit_prefixes = map (\<lambda>c. [c]) ''0123456789''"

definition get_audio_subdirectory :: "json \<Rightarrow> string result" where
  "get_audio_subdirectory filename =
     (if \<not> truthy filename then Inr ''bix''
      else case filename of
          JStr f \<Rightarrow>
            if startswith_any f digit_prefixes
            then Inr ''number''
            else if startswith_any f [''_'', ''.'', ''!'', ''?'', '','']
            then Inr ''bix''
            else if startswith f ''gg''
            then Inr ''gg''
            else Inr [lower_char (hd f)]
        | _ \<Rightarrow> Inl AttributeError)"

definition audio_info_of :: "json \<Rightarrow> json list \<Rightarrow> json \<Rightarrow> json list result" where
  \<comment> \<open>body of the loop over \<^verbatim>\<open>entry["hwi"]["prs"]\<close>; \<open>audio_files\<close> is the list built so far\<close>
  "audio_info_of entry audio_files prs =
     ebind (py_in ''sound'' prs) (\<lambda>has_sound.
       if \<not> has_sound then Inr audio_files
       else ebind (getitem prs ''sound'') (\<lambda>sound.
         ebind (py_in ''audio'' sound) (\<lambda>has_audio.
           if \<not> has_audio then Inr audio_files
           else ebind (getitem sound ''audio'') (\<lambda>audio_filename.
             if \<not> truthy audio_filename then Inr audio_files
             else ebind (get_audio_subdirectory audio_filename) (\<lambda>subdirectory.
               let audio_url = base_audio_url @ subdirectory @ ''/''
                                 @ py_str audio_filename @ ''.mp3''
               in ebind (py_get prs ''mw'' (JStr '''')) (\<lambda>pronunciation.
                    ebind (py_get entry ''meta'' (JDict [])) (\<lambda>meta.
                      ebind (py_get meta ''id'' (JStr '''')) (\<lambda>entry_id.
                        Inr (audio_files @
                          [JDict [(''url'', JStr audio_url),
                                  (''filename'', audio_filename),
                                  (''pronunciation'', pronunciation),
                                  (''entry_id'', entry_id)]])))))))))"

definition audio_of_entry :: "json list \<Rightarrow> json \<Rightarrow> json list result" where
  \<comment> \<open>body of the loop over the entries of the response\<close>
  "audio_of_entry audio_files entry =
     (case entry of
        JDict kvs \<Rightarrow>
          ebind (py_in ''hwi'' entry) (\<lambda>has_hwi.
            if \<not> has_hwi then Inr audio_files
            else ebind (getitem entry ''hwi'') (\<lambda>hwi.
              ebind (py_in ''prs'' hwi) (\<lambda>has_prs.
                if \<not> has_prs then Inr audio_files
                else ebind (getitem hwi ''prs'') (\<lambda>prs_list.
                  for_in (audio_info_of entry) prs_list audio_files))))
      | _ \<Rightarrow> Inr audio_files)"

definition extract_audio_info_from_api_response :: "json \<Rightarrow> json list result" where
  "extract_audio_info_from_api_response api_response =
     (case api_response of
        JList entries \<Rightarrow>
          if entries = [] then Inr [] else for_loop audio_of_entry entries []
      | _ \<Rightarrow> Inr [])"

subsection \<open>The subdirectory rule as the specification words it\<close>

definition subdirectory_rule :: "string \<Rightarrow> string" where
  \<comment> \<open>the five rules, in their order of precedence\<close>
  "subdirectory_rule F =
     (if F = [] then ''bix''
      else if hd F \<in> set ''0123456789'' then ''number''
      else if hd F \<in> set ''_.!?,'' then ''bix''
      else if take 2 F = ''gg'' then ''gg''
      else [lower_char (hd F)])"

section \<open>The dictionary response parser\<close>

fun py_eq :: "json \<Rightarrow> json \<Rightarrow> bool" where
  \<comment> \<open>\<^verbatim>\<open>a == b\<close>: \<^verbatim>\<open>True == 1\<close> and \<^verbatim>\<open>False == 0\<close>; lists by position, dicts by key\<close>
  "py_eq JNull b = (b = JNull)"
| "py_eq (JBool x) b =
     (case b of JBool y \<Rightarrow> x = y | JNum n \<Rightarrow> n = (if x then 1 else 0) | _ \<Rightarrow> False)"
| "py_eq (JNum m) b =
     (case b of JBool y \<Rightarrow> m = (if y then 1 else 0) | JNum n \<Rightarrow> m = n | _ \<Rightarrow> False)"
| "py_eq (JStr s) b = (b = JStr s)"
| "py_eq (JList xs) b = (case b of JList ys \<Rightarrow> list_all2 py_eq xs ys | _ \<Rightarrow> False)"
| "py_eq (JDict kvs) b =
     (case b of
        JDict kws \<Rightarrow>
          length kvs = length kws \<and>
          list_all (\<lambda>kv. case map_of kws (fst kv) of
                            None \<Rightarrow> False
                          | Some w \<Rightarrow> py_eq (snd kv) w) kvs
      | _ \<Rightarrow> False)"

definition py_member :: "json \<Rightarrow> json list \<Rightarrow> bool" where
  \<comment> \<open>\<^verbatim>\<open>x in xs\<close> for a list \<open>xs\<close>\<close>
  "py_member x xs = list_ex (\<lambda>y. py_eq y x) xs"

definition strip_tags :: "string list \<Rightarrow> string \<Rightarrow> string" where
  \<comment> \<open>\<^verbatim>\<open>for tag in tags: text = text.replace(tag, "")\<close>\<close>
  "strip_tags tags text = foldl replace text tags"

definition etymology_tags :: "string list" where
  "etymology_tags = [''{it}'', ''{/it}'', ''{et_link|'', ''|}'']"

definition definition_tags :: "string list" where
  "definition_tags = [''{bc}'', ''{sx|'', ''|}'', ''{a_link|'', ''}'']"

definition example_tags :: "string list" where
  "example_tags = [''{wi}'', ''{/wi}'', ''{it}'', ''{/it}'']"

definition clean_text :: "string list \<Rightarrow> string \<Rightarrow> string" where
  \<comment> \<open>the tags removed from \<open>text\<close> one after the other, then \<^verbatim>\<open>text.strip()\<close>\<close>
  "clean_text tags text = strip (strip_tags tags text)"

definition clean :: "string list \<Rightarrow> json \<Rightarrow> string result" where
  \<comment> \<open>only a \<^verbatim>\<open>str\<close> has \<^verbatim>\<open>replace\<close>\<close>
  "clean tags text =
     (case text of JStr t \<Rightarrow> Inr (clean_text tags t) | _ \<Rightarrow> Inl AttributeError)"

definition headword_of :: "json \<Rightarrow> string result" where
  \<comment> \<open>\<^verbatim>\<open>entry["meta"]["id"].split(":")[0].title()\<close> when both keys are there, else \<^verbatim>\<open>""\<close>\<close>
  "headword_of entry =
     ebind (py_in ''meta'' entry) (\<lambda>has_meta.
       if \<not> has_meta then Inr ''''
       else ebind (getitem entry ''meta'') (\<lambda>meta.
         ebind (py_in ''id'' meta) (\<lambda>has_id.
           if \<not> has_id then Inr ''''
           else ebind (getitem meta ''id'') (\<lambda>ident.
             case ident of
               JStr s \<Rightarrow> Inr (title (takeWhile (\<lambda>c. c \<noteq> CHR '':'') s))
             | _ \<Rightarrow> Inl AttributeError))))"

definition part_of_speech_of :: "json \<Rightarrow> json result" where
  "part_of_speech_of entry =
     ebind (py_in ''fl'' entry) (\<lambda>has_fl.
       if has_fl then getitem entry ''fl'' else Inr (JStr ''''))"

definition pronunciation_step :: "string list \<Rightarrow> json \<Rightarrow> string list result" where
  "pronunciation_step pronunciations prs =
     ebind (py_in ''mw'' prs) (\<lambda>has_mw.
       if has_mw
       then ebind (getitem prs ''mw'') (\<lambda>mw. Inr (pronunciations @ [''/'' @ py_str mw @ ''/'']))
       else Inr pronunciations)"

definition pronunciation_of :: "json \<Rightarrow> string result" where
  "pronunciation_of entry =
     ebind (py_in ''hwi'' entry) (\<lambda>has_hwi.
       if \<not> has_hwi then Inr ''''
       else ebind (getitem entry ''hwi'') (\<lambda>hwi.
         ebind (py_in ''prs'' hwi) (\<lambda>has_prs.
           if \<not> has_prs then Inr ''''
           else ebind (getitem hwi ''prs'') (\<lambda>prs_list.
             ebind (for_in pronunciation_step prs_list []) (\<lambda>pronunciations.
               Inr (join '', '' pronunciations))))))"

definition etymology_step :: "string list \<Rightarrow> json \<Rightarrow> string list result" where
  "etymology_step etymology_parts et_item =
     (case et_item of
        JList xs \<Rightarrow>
          if length xs > 1 \<and> xs ! 0 = JStr ''text''
          then ebind (clean etymology_tags (xs ! 1)) (\<lambda>text. Inr (etymology_parts @ [text]))
          else Inr etymology_parts
      | _ \<Rightarrow> Inr etymology_parts)"

definition etymology_of :: "json \<Rightarrow> string result" where
  "etymology_of entry =
     ebind (py_in ''et'' entry) (\<lambda>has_et.
       if \<not> has_et then Inr ''''
       else ebind (getitem entry ''et'') (\<lambda>et.
         ebind (for_in etymology_step et []) (\<lambda>etymology_parts.
           Inr (join '' '' etymology_parts))))"

text \<open>
  The walk over \<^verbatim>\<open>entry["def"]\<close> appends to two lists of \<^verbatim>\<open>entry_data\<close>; the loops thread
  them as the pair \<open>(definitions, examples)\<close>.
\<close>

type_synonym senses = "json list \<times> json list"

definition vis_step :: "senses \<Rightarrow> json \<Rightarrow> senses result" where
  "vis_step acc vis_item =
     ebind (py_in ''t'' vis_item) (\<lambda>has_t.
       if has_t
       then ebind (getitem vis_item ''t'') (\<lambda>example.
              ebind (clean example_tags example) (\<lambda>text.
                Inr (fst acc, snd acc @ [JStr text])))
       else Inr acc)"

definition dt_step :: "senses \<Rightarrow> json \<Rightarrow> senses result" where
  "dt_step acc dt_item =
     ebind (getindex dt_item 0) (\<lambda>kind.
       if kind = JStr ''text''
       then ebind (getindex dt_item 1) (\<lambda>def_text.
              ebind (clean definition_tags def_text) (\<lambda>text.
                Inr (fst acc @ [JStr text], snd acc)))
       else if kind = JStr ''vis''
       then ebind (getindex dt_item 1) (\<lambda>vis. for_in vis_step vis acc)
       else Inr acc)"

definition sense_step :: "senses \<Rightarrow> json \<Rightarrow> senses result" where
  "sense_step acc sense =
     (case sense of
        JList xs \<Rightarrow>
          if length xs > 1
          then (case xs ! 1 of
                  JDict kvs \<Rightarrow>
                    ebind (py_in ''dt'' (xs ! 1)) (\<lambda>has_dt.
                      if has_dt
                      then ebind (getitem (xs ! 1) ''dt'') (\<lambda>dt. for_in dt_step dt acc)
                      else Inr acc)
                | _ \<Rightarrow> Inr acc)
          else Inr acc
      | _ \<Rightarrow> Inr acc)"

definition sense_sequence_step :: "senses \<Rightarrow> json \<Rightarrow> senses result" where
  "sense_sequence_step acc sense_sequence = for_in sense_step sense_sequence acc"

definition definition_group_step :: "senses \<Rightarrow> json \<Rightarrow> senses result" where
  "definition_group_step acc definition_group =
     ebind (py_in ''sseq'' definition_group) (\<lambda>has_sseq.
       if has_sseq
       then ebind (getitem definition_group ''sseq'') (\<lambda>sseq.
              for_in sense_sequence_step sseq acc)
       else Inr acc)"

definition senses_of :: "json \<Rightarrow> senses result" where
  "senses_of entry =
     ebind (py_in ''def'' entry) (\<lambda>has_def.
       if has_def
       then ebind (getitem entry ''def'') (\<lambda>groups. for_in definition_group_step groups ([], []))
       else Inr ([], []))"

definition shortdef_step :: "json list \<Rightarrow> json \<Rightarrow> json list result" where
  "shortdef_step definitions short_def =
     Inr (if \<not> py_member short_def definitions then definitions @ [short_def]
          else definitions)"

definition add_shortdefs :: "json \<Rightarrow> json list \<Rightarrow> json list result" where
  "add_shortdefs entry definitions =
     ebind (py_in ''shortdef'' entry) (\<lambda>has_shortdef.
       if has_shortdef
       then ebind (getitem entry ''shortdef'') (\<lambda>shortdefs.
              for_in shortdef_step shortdefs definitions)
       else Inr definitions)"

definition entry_data_of :: "json \<Rightarrow> json result" where
  \<comment> \<open>the body of the loop over the entries: the record built for one entry\<close>
  "entry_data_of entry =
     ebind (headword_of entry) (\<lambda>headword.
     ebind (part_of_speech_of entry) (\<lambda>part_of_speech.
     ebind (pronunciation_of entry) (\<lambda>pronunciation.
     ebind (etymology_of entry) (\<lambda>etymology.
     ebind (senses_of entry) (\<lambda>found.
     ebind (add_shortdefs entry (fst found)) (\<lambda>definitions.
       Inr (JDict [(''headword'', JStr headword),
                   (''part_of_speech'', part_of_speech),
                   (''pronunciation'', JStr pronunciation),
                   (''etymology'', JStr etymology),
                   (''definitions'', JList definitions),
                   (''examples'', JList (snd found))])))))))"

definition entry_step :: "json list \<Rightarrow> json \<Rightarrow> json list result" where
  "entry_step all_entries entry =
     ebind (entry_data_of entry) (\<lambda>entry_data. Inr (all_entries @ [entry_data]))"

definition first_or_empty :: "json \<Rightarrow> json" where
  \<comment> \<open>\<^verbatim>\<open>xs[0] if xs else ""\<close>\<close>
  "first_or_empty v = (case v of JList (x # xs) \<Rightarrow> x | _ \<Rightarrow> JStr '''')"

definition field :: "json \<Rightarrow> string \<Rightarrow> json" where
  \<comment> \<open>a key of a dict the program built itself, so the key is there\<close>
  "field v k = (case getitem v k of Inr x \<Rightarrow> x | Inl e \<Rightarrow> JNull)"

definition process_dictionary_response :: "json \<Rightarrow> string \<Rightarrow> json result" where
  "process_dictionary_response data word =
     ebind
       (case data of
          JList (e # es) \<Rightarrow>
            ebind (for_loop entry_step (e # es) []) (\<lambda>all_entries.
              case all_entries of
                [] \<Rightarrow> Inr [(''Word'', JStr (title word)), (''Dictionary_Data'', JList [])]
              | first_entry # rest \<Rightarrow>
                  Inr [(''Word'', if truthy (field first_entry ''headword'')
                                  then field first_entry ''headword'' else JStr (title word)),
                       (''Dictionary_Data'', JList all_entries),
                       (''Part_of_Speech'', field first_entry ''part_of_speech''),
                       (''Main_Definition'', first_or_empty (field first_entry ''definitions'')),
                       (''Main_Example'', first_or_empty (field first_entry ''examples'')),
                       (''Pronunciation'', field first_entry ''pronunciation'')])
        | _ \<Rightarrow> Inr [(''Word'', JStr (title word)), (''Dictionary_Data'', JDict [])])
       (\<lambda>word_data.
          ebind (extract_audio_info_from_api_response data) (\<lambda>audio_files.
            Inr (JDict (word_data @ [(''Audio_Files'', JList audio_files)]))))"

section \<open>The thesaurus response parser\<close>

definition extend_step :: "json list \<Rightarrow> json \<Rightarrow> json list result" where
  \<comment> \<open>\<^verbatim>\<open>entry_data[attr].extend(group)\<close>, the group as \<open>grp\<close>\<close>
  "extend_step words grp = ebind (py_iter grp) (\<lambda>items. Inr (words @ items))"

definition group_words :: "json \<Rightarrow> string \<Rightarrow> json list result" where
  \<comment> \<open>one round of the loop over \<^verbatim>\<open>("syns", "synonyms"), ...\<close>: the list stored under \<open>attr\<close>\<close>
  "group_words meta key =
     ebind (py_in key meta) (\<lambda>has_key.
       if has_key
       then ebind (getitem meta key) (\<lambda>groups. for_in extend_step groups [])
       else Inr [])"

definition thesaurus_entry_of :: "json \<Rightarrow> json result" where
  "thesaurus_entry_of entry =
     ebind (headword_of entry) (\<lambda>headword.
     ebind (part_of_speech_of entry) (\<lambda>part_of_speech.
     ebind (py_in ''meta'' entry) (\<lambda>has_meta.
     ebind (if has_meta then getitem entry ''meta'' else Inr (JDict [])) (\<lambda>meta.
     ebind (group_words meta ''syns'') (\<lambda>synonyms.
     ebind (group_words meta ''ants'') (\<lambda>antonyms.
     ebind (group_words meta ''rel'') (\<lambda>related_words.
     ebind (group_words meta ''near'') (\<lambda>near_antonyms.
       Inr (JDict [(''headword'', JStr headword),
                   (''part_of_speech'', part_of_speech),
                   (''synonyms'', JList synonyms),
                   (''antonyms'', JList antonyms),
                   (''related_words'', JList related_words),
                   (''near_antonyms'', JList near_antonyms)])))))))))"

definition thesaurus_step :: "json list \<Rightarrow> json \<Rightarrow> json list result" where
  "thesaurus_step entries entry =
     ebind (thesaurus_entry_of entry) (\<lambda>entry_data. Inr (entries @ [entry_data]))"

definition process_thesaurus_response :: "json \<Rightarrow> string \<Rightarrow> json result" where
  "process_thesaurus_response data word =
     (case data of
        JList (e # es) \<Rightarrow>
          ebind (for_loop thesaurus_step (e # es) []) (\<lambda>entries.
            Inr (JDict [(''Thesaurus_Data'', JList entries)]))
      | _ \<Rightarrow> Inr (JDict [(''Thesaurus_Data'', JList [])]))"

section \<open>The API manager\<close>

text \<open>
  The remote services are parameters of the model. \<^verbatim>\<open>session.get(url, timeout=10)\<close> either
  raises (a transport failure or a timeout is a \<^verbatim>\<open>RequestException\<close>) or returns a response
  with a status code and a body; \<^verbatim>\<open>response.json()\<close> raises when the body does not decode,
  which is the body \<open>None\<close>. A service may answer the same request differently over time:
  its answer depends on the calls made so far, which the manager's state records in \<open>calls\<close>.
\<close>

datatype http_outcome = Raises exn | Response int "json option"

datatype call = HttpGet string | Translate string

record remote =
  session_get :: "call list \<Rightarrow> string \<Rightarrow> http_outcome"
  translator_translate :: "call list \<Rightarrow> string \<Rightarrow> string result"

record api_manager =
  cache :: "string \<rightharpoonup> json"
  calls :: "call list"

definition MERRIAM_WEBSTER_DICT_KEY :: string where
  "MERRIAM_WEBSTER_DICT_KEY = ''e7a49248-5922-4466-aad5-ea05ed542841''"

definition MERRIAM_WEBSTER_THESAURUS_KEY :: string where
  "MERRIAM_WEBSTER_THESAURUS_KEY = ''08d3b958-e70c-4cfd-9ed1-74bd83f3c51c''"

definition MERRIAM_WEBSTER_DICT_URL :: string where
  "MERRIAM_WEBSTER_DICT_URL = ''https://www.dictionaryapi.com/api/v3/references/collegiate/json''"

definition MERRIAM_WEBSTER_THESAURUS_URL :: string where
  "MERRIAM_WEBSTER_THESAURUS_URL = ''https://www.dictionaryapi.com/api/v3/references/thesaurus/json''"

definition dict_url :: "string \<Rightarrow> string" where
  "dict_url word = MERRIAM_WEBSTER_DICT_URL @ ''/'' @ word @ ''?key='' @ MERRIAM_WEBSTER_DICT_KEY"

definition thesaurus_url :: "string \<Rightarrow> string" where
  "thesaurus_url word =
     MERRIAM_WEBSTER_THESAURUS_URL @ ''/'' @ word @ ''?key='' @ MERRIAM_WEBSTER_THESAURUS_KEY"

definition error_result :: "string \<Rightarrow> string \<Rightarrow> json" where
  \<comment> \<open>\<^verbatim>\<open>{"error": kind, "word": word}\<close>\<close>
  "error_result kind word = JDict [(''error'', JStr kind), (''word'', JStr word)]"

definition is_str :: "json \<Rightarrow> bool" where
  "is_str v = (case v of JStr s \<Rightarrow> True | _ \<Rightarrow> False)"

definition dictionary_result :: "http_outcome \<Rightarrow> string \<Rightarrow> json result" where
  \<comment> \<open>the \<^verbatim>\<open>try\<close> block of \<^verbatim>\<open>get_dictionary_data\<close>, from the outcome of \<^verbatim>\<open>session.get\<close>\<close>
  "dictionary_result outcome word =
     (case outcome of
        Raises e \<Rightarrow> Inl e
      | Response status_code body \<Rightarrow>
          if status_code = 200
          then (case body of
                  None \<Rightarrow> Inl RequestException
                | Some data \<Rightarrow>
                    (case data of
                       JList (d # ds) \<Rightarrow>
                         if is_str d
                         then Inr (JDict [(''error'', JStr ''word_not_found''),
                                          (''word'', JStr word),
                                          (''suggestions'', JList (take 5 (d # ds)))])
                         else process_dictionary_response data word
                     | _ \<Rightarrow> Inr (error_result ''word_not_found'' word)))
          else Inr (error_result ''api_error'' word))"

definition get_dictionary_data :: "remote \<Rightarrow> api_manager \<Rightarrow> string \<Rightarrow> json \<times> api_manager" where
  "get_dictionary_data r m word =
     (let outcome = session_get r (calls m) (dict_url word);
          m' = m\<lparr>calls := calls m @ [HttpGet (dict_url word)]\<rparr>
      in (case dictionary_result outcome word of
            Inr v \<Rightarrow> v
          | Inl e \<Rightarrow> error_result ''api_error'' word,
          m'))"

definition thesaurus_result :: "http_outcome \<Rightarrow> string \<Rightarrow> json result" where
  \<comment> \<open>the \<^verbatim>\<open>try\<close> block of \<^verbatim>\<open>get_thesaurus_data\<close>\<close>
  "thesaurus_result outcome word =
     (case outcome of
        Raises e \<Rightarrow> Inl e
      | Response status_code body \<Rightarrow>
          if status_code = 200
          then (case body of
                  None \<Rightarrow> Inl RequestException
                | Some data \<Rightarrow>
                    (case data of
                       JList (d # ds) \<Rightarrow>
                         if \<not> is_str d then process_thesaurus_response data word
                         else Inr (JDict [(''Thesaurus_Data'', JStr ''No thesaurus data available'')])
                     | _ \<Rightarrow> Inr (JDict [(''Thesaurus_Data'', JStr ''No thesaurus data available'')])))
          else Inr (JDict [(''Thesaurus_Data'', JStr ''No thesaurus data available'')]))"

definition get_thesaurus_data :: "remote \<Rightarrow> api_manager \<Rightarrow> string \<Rightarrow> json \<times> api_manager" where
  "get_thesaurus_data r m word =
     (let outcome = session_get r (calls m) (thesaurus_url word);
          m' = m\<lparr>calls := calls m @ [HttpGet (thesaurus_url word)]\<rparr>
      in (case thesaurus_result outcome word of
            Inr v \<Rightarrow> v
          | Inl e \<Rightarrow> JDict [(''Thesaurus_Data'', JStr ''Thesaurus data unavailable'')],
          m'))"

definition translation_not_found :: string where
  \<comment> \<open>the placeholder of \<^verbatim>\<open>translate_to_turkish\<close>, in UTF-8: C-cedilla, \<^verbatim>\<open>eviri bulunamad\<close>, dotless i\<close>
  "translation_not_found = [CHR 0xC3, CHR 0x87] @ ''eviri bulunamad'' @ [CHR 0xC4, CHR 0xB1]"

definition translate_to_turkish :: "remote \<Rightarrow> api_manager \<Rightarrow> string \<Rightarrow> string \<times> api_manager" where
  "translate_to_turkish r m text =
     (case translator_translate r (calls m) text of
        Inr t \<Rightarrow> t
      | Inl e \<Rightarrow> translation_not_found,
      m\<lparr>calls := calls m @ [Translate text]\<rparr>)"

fun dict_set :: "(string \<times> json) list \<Rightarrow> string \<Rightarrow> json \<Rightarrow> (string \<times> json) list" where
  \<comment> \<open>\<^verbatim>\<open>d[k] = v\<close>: a key that is there keeps its place, a new key goes last\<close>
  "dict_set [] k v = [(k, v)]"
| "dict_set ((k', v') # kvs) k v =
     (if k' = k then (k, v) # kvs else (k', v') # dict_set kvs k v)"

definition dict_update :: "(string \<times> json) list \<Rightarrow> (string \<times> json) list \<Rightarrow> (string \<times> json) list" where
  \<comment> \<open>\<^verbatim>\<open>d.update(other)\<close>\<close>
  "dict_update d other = foldl (\<lambda>acc kv. dict_set acc (fst kv) (snd kv)) d other"

definition items_of :: "json \<Rightarrow> (string \<times> json) list" where
  "items_of v = (case v of JDict kvs \<Rightarrow> kvs | _ \<Rightarrow> [])"

definition lookup :: "remote \<Rightarrow> api_manager \<Rightarrow> string \<Rightarrow> json result \<times> api_manager" where
  \<comment> \<open>the \<^verbatim>\<open>try\<close> block of \<^verbatim>\<open>get_word_data\<close> after \<^verbatim>\<open>word = word.lower().strip()\<close>\<close>
  "lookup r m word =
     (case cache m word of
        Some cached \<Rightarrow> (Inr cached, m)
      | None \<Rightarrow>
          (let (dict_data, m1) = get_dictionary_data r m word in
           case py_in ''error'' dict_data of
             Inl e \<Rightarrow> (Inl e, m1)
           | Inr has_error \<Rightarrow>
               if has_error then (Inr dict_data, m1)
               else
                 (let (thesaurus_data, m2) = get_thesaurus_data r m1 word;
                      merged = dict_update (items_of dict_data) (items_of thesaurus_data);
                      (translation, m3) = translate_to_turkish r m2 word;
                      combined_data = JDict (dict_set merged ''Turkish_Translation'' (JStr translation))
                  in (Inr combined_data, m3\<lparr>cache := (cache m3)(word \<mapsto> combined_data)\<rparr>))))"

definition get_word_data :: "remote \<Rightarrow> api_manager \<Rightarrow> string \<Rightarrow> json \<times> api_manager" where
  "get_word_data r m word =
     (let w = strip (lower word);
          (outcome, m') = lookup r m w
      in (case outcome of
            Inr v \<Rightarrow> v
          | Inl e \<Rightarrow> if e = RequestException then error_result ''network_error'' w
                     else error_result ''unknown_error'' w,
          m'))"

definition is_error :: "json \<Rightarrow> bool" where
  \<comment> \<open>\<^verbatim>\<open>"error" in result\<close> for a result dict\<close>
  "is_error v = (py_in ''error'' v = Inr True)"

section \<open>The quiz check\<close>

definition py_upper :: "json \<Rightarrow> string result" where
  "py_upper v = (case v of JStr s \<Rightarrow> Inr (upper s) | _ \<Rightarrow> Inl AttributeError)"

definition strip_lower :: "json \<Rightarrow> string result" where
  \<comment> \<open>\<^verbatim>\<open>v.strip().lower()\<close>\<close>
  "strip_lower v = (case v of JStr s \<Rightarrow> Inr (lower (strip s)) | _ \<Rightarrow> Inl AttributeError)"

definition digit_val :: "char \<Rightarrow> nat" where
  "digit_val c = (of_char c :: nat) - 48"

fun parse_digits :: "nat \<Rightarrow> bool \<Rightarrow> string \<Rightarrow> nat option" where
  \<comment> \<open>decimal digits, with single underscores between digits; \<open>prev\<close>: a digit came just before\<close>
  "parse_digits acc prev [] = (if prev then Some acc else None)"
| "parse_digits acc prev (c # cs) =
     (if is_digit c then parse_digits (10 * acc + digit_val c) True cs
      else if c = CHR ''_'' \<and> prev \<and> cs \<noteq> [] then parse_digits acc False cs
      else None)"

definition is_int_space :: "char \<Rightarrow> bool" where
  \<comment> \<open>the blanks \<^verbatim>\<open>int\<close> skips around the number in an ASCII string: tab, LF, VT, FF, CR
      and the space (FS, GS, RS and US are blanks for \<^verbatim>\<open>strip\<close> only)\<close>
  "is_int_space c = ((of_char c :: nat) \<in> {9, 10, 11, 12, 13, 32})"

definition int_trim :: "string \<Rightarrow> string" where
  "int_trim s = rev (dropWhile is_int_space (rev (dropWhile is_int_space s)))"

definition count_digits :: "string \<Rightarrow> nat" where
  "count_digits s = length (filter is_digit s)"

definition read_digits :: "nat \<Rightarrow> string \<Rightarrow> nat option" where
  \<comment> \<open>the digits of a number. An interpreter with the limit \<^verbatim>\<open>sys.get_int_max_str_digits()\<close>
      (4300 unless configured, 0 for none, as in interpreters without the limit) refuses
      more digits than the limit.\<close>
  "read_digits max_str_digits ds =
     (case parse_digits 0 False ds of
        None \<Rightarrow> None
      | Some n \<Rightarrow> if 0 < max_str_digits \<and> max_str_digits < count_digits ds then None
                  else Some n)"

definition py_int :: "nat \<Rightarrow> string \<Rightarrow> int result" where
  \<comment> \<open>\<^verbatim>\<open>int(s)\<close> for a string: blanks around, a sign, digits; anything else is a \<^verbatim>\<open>ValueError\<close>\<close>
  "py_int max_str_digits s =
     (case int_trim s of
        [] \<Rightarrow> Inl ValueError
      | c # cs \<Rightarrow>
          if c = CHR ''-''
          then (case read_digits max_str_digits cs of
                  None \<Rightarrow> Inl ValueError | Some n \<Rightarrow> Inr (- int n))
          else if c = CHR ''+''
          then (case read_digits max_str_digits cs of
                  None \<Rightarrow> Inl ValueError | Some n \<Rightarrow> Inr (int n))
          else (case read_digits max_str_digits (c # cs) of
                  None \<Rightarrow> Inl ValueError | Some n \<Rightarrow> Inr (int n)))"

definition py_len :: "json \<Rightarrow> nat result" where
  "py_len v = (case v of
       JList xs \<Rightarrow> Inr (length xs)
     | JStr s \<Rightarrow> Inr (length s)
     | JDict kvs \<Rightarrow> Inr (length kvs)
     | _ \<Rightarrow> Inl TypeError)"

definition resolve_option :: "nat \<Rightarrow> json \<Rightarrow> json \<Rightarrow> string \<Rightarrow> json result" where
  \<comment> \<open>the branch of an answer that starts with \<^verbatim>\<open>OPTION\<close>; only a \<^verbatim>\<open>ValueError\<close> is caught\<close>
  "resolve_option max_str_digits data selected_option correct_answer_ref =
     (case py_int max_str_digits (replace correct_answer_ref ''OPTION'') of
        Inl e \<Rightarrow> if e = ValueError then Inr selected_option else Inl e
      | Inr n \<Rightarrow>
          (let option_number = n - 1 in
           ebind (py_get data ''options'' (JList [])) (\<lambda>options.
             if 0 \<le> option_number
             then ebind (py_len options) (\<lambda>len.
                    if option_number < int len
                    then getindex options (nat option_number)
                    else Inr selected_option)
             else Inr selected_option)))"

definition check_quiz_answer :: "nat \<Rightarrow> json \<Rightarrow> json result" where
  \<comment> \<open>\<open>max_str_digits\<close> is the interpreter's limit that \<^verbatim>\<open>int\<close> reads; \<open>data\<close> is the request body\<close>
  "check_quiz_answer max_str_digits data =
     ebind (py_get data ''selected_option'' (JStr '''')) (\<lambda>selected_option.
     ebind (py_get data ''correct_answer'' (JStr '''')) (\<lambda>correct_answer.
     ebind (py_upper correct_answer) (\<lambda>raised.
       let correct_answer_ref = strip raised in
       ebind (if startswith correct_answer_ref ''OPTION''
              then resolve_option max_str_digits data selected_option correct_answer_ref
              else Inr (JStr correct_answer_ref)) (\<lambda>correct_option_text.
         ebind (strip_lower selected_option) (\<lambda>chosen.
           ebind (strip_lower correct_option_text) (\<lambda>wanted.
             Inr (JDict [(''is_correct'', JBool (chosen = wanted)),
                         (''correct_answer'', correct_option_text)])))))))"

section \<open>Favorites\<close>

text \<open>
  \<^verbatim>\<open>favorites_data\<close> is a global list; each handler is a function from the list to the
  HTTP status, the response body and the list it leaves. A handler that raises leaves
  the list as it was, since the list is only changed by the last assignment or
  \<^verbatim>\<open>append\<close>. \<^verbatim>\<open>save_favorites\<close> writes the list to a file and swallows every error; the
  file is not part of the model.
\<close>

type_synonym response = "nat \<times> json"

definition py_lower :: "json \<Rightarrow> string result" where
  "py_lower v = (case v of JStr s \<Rightarrow> Inr (lower s) | _ \<Rightarrow> Inl AttributeError)"

definition same_word :: "json \<Rightarrow> json \<Rightarrow> bool result" where
  \<comment> \<open>\<^verbatim>\<open>fav["Word"].lower() == word.lower()\<close>\<close>
  "same_word word fav =
     ebind (getitem fav ''Word'') (\<lambda>fav_word.
       ebind (py_lower fav_word) (\<lambda>a.
         ebind (py_lower word) (\<lambda>b. Inr (a = b))))"

fun any_same_word :: "json \<Rightarrow> json list \<Rightarrow> bool result" where
  \<comment> \<open>\<^verbatim>\<open>any(... for fav in favorites_data)\<close>: stops at the first match\<close>
  "any_same_word word [] = Inr False"
| "any_same_word word (fav # favs) =
     ebind (same_word word fav) (\<lambda>same. if same then Inr True else any_same_word word favs)"

fun other_words :: "string \<Rightarrow> json list \<Rightarrow> json list result" where
  \<comment> \<open>\<^verbatim>\<open>[fav for fav in favorites_data if fav["Word"].lower() != word.lower()]\<close>\<close>
  "other_words word [] = Inr []"
| "other_words word (fav # favs) =
     ebind (same_word (JStr word) fav) (\<lambda>same.
       ebind (other_words word favs) (\<lambda>kept.
         Inr (if same then kept else fav # kept)))"

definition message :: "json \<Rightarrow> string \<Rightarrow> string" where
  \<comment> \<open>\<^verbatim>\<open>f"'{word}' ..."\<close>\<close>
  "message word tail = [CHR 0x27] @ py_str word @ [CHR 0x27] @ tail"

definition add_favorite :: "json list \<Rightarrow> json \<Rightarrow> (response \<times> json list) result" where
  "add_favorite favorites_data data =
     ebind (py_get data ''word_data'' JNull) (\<lambda>word_data.
       if \<not> truthy word_data
       then Inr ((400, JDict [(''error'', JStr ''No word data provided'')]), favorites_data)
       else ebind (py_get word_data ''Word'' (JStr '''')) (\<lambda>word.
         ebind (any_same_word word favorites_data) (\<lambda>present.
           if \<not> present
           then Inr ((200, JDict [(''success'', JBool True),
                                  (''message'', JStr (message word '' added to favorites''))]),
                     favorites_data @ [word_data])
           else Inr ((200, JDict [(''success'', JBool False),
                                  (''message'', JStr (message word '' already in favorites''))]),
                     favorites_data))))"

definition remove_favorite :: "json list \<Rightarrow> string \<Rightarrow> (response \<times> json list) result" where
  "remove_favorite favorites_data word =
     ebind (other_words word favorites_data) (\<lambda>kept.
       if length kept < length favorites_data
       then Inr ((200, JDict [(''success'', JBool True),
                              (''message'', JStr (message (JStr word) '' removed from favorites''))]),
                 kept)
       else Inr ((200, JDict [(''success'', JBool False),
                              (''message'', JStr (message (JStr word) '' not found in favorites''))]),
                 kept))"

definition clear_favorites :: "json list \<Rightarrow> response \<times> json list" where
  "clear_favorites favorites_data =
     ((200, JDict [(''success'', JBool True), (''message'', JStr ''All favorites cleared'')]), [])"

subsection \<open>The invariant of the collection\<close>

definition word_of :: "json \<Rightarrow> string option" where
  \<comment> \<open>the \<^verbatim>\<open>Word\<close> of an entry, in lower case, when the entry has one and it is a string\<close>
  "word_of fav = (case getitem fav ''Word'' of Inr (JStr s) \<Rightarrow> Some (lower s) | _ \<Rightarrow> None)"

definition lowered_words :: "json list \<Rightarrow> string list" where
  "lowered_words favs = List.map_filter word_of favs"

definition one_per_word :: "json list \<Rightarrow> bool" where
  \<comment> \<open>at most one entry per case-insensitive \<^verbatim>\<open>Word\<close>\<close>
  "one_per_word favs = distinct (lowered_words favs)"

subsection \<open>The shape of a thesaurus entry, as the specification words it\<close>

definition list_of_lists :: "json \<Rightarrow> bool" where
  \<comment> \<open>a group: a list of lists\<close>
  "list_of_lists v =
     (case v of
        JList gs \<Rightarrow> list_all (\<lambda>g. case g of JList xs \<Rightarrow> True | _ \<Rightarrow> False) gs
      | _ \<Rightarrow> False)"

definition flattened :: "(string \<times> json) list \<Rightarrow> string \<Rightarrow> json list" where
  \<comment> \<open>the inner lists of the group under \<open>key\<close>, one after the other; nothing without the key\<close>
  "flattened meta key =
     (case map_of meta key of
        Some (JList gs) \<Rightarrow> concat (map (\<lambda>g. case g of JList xs \<Rightarrow> xs | _ \<Rightarrow> []) gs)
      | _ \<Rightarrow> [])"

definition meta_of :: "json \<Rightarrow> (string \<times> json) list option" where
  "meta_of entry =
     (case entry of
        JDict kvs \<Rightarrow> (case map_of kvs ''meta'' of Some (JDict m) \<Rightarrow> Some m | _ \<Rightarrow> None)
      | _ \<Rightarrow> None)"

definition thesaurus_entry_shape :: "json \<Rightarrow> bool" where
  \<comment> \<open>an entry object whose meta is an object, whose id (if any) is a string, and whose
      groups \<^verbatim>\<open>syns\<close>, \<^verbatim>\<open>ants\<close>, \<^verbatim>\<open>rel\<close>, \<^verbatim>\<open>near\<close> (those it has) are lists of lists\<close>
  "thesaurus_entry_shape entry =
     (case meta_of entry of
        None \<Rightarrow> False
      | Some m \<Rightarrow>
          (case map_of m ''id'' of None \<Rightarrow> True | Some v \<Rightarrow> is_str v) \<and>
          list_all (\<lambda>k. case map_of m k of None \<Rightarrow> True | Some v \<Rightarrow> list_of_lists v)
            [''syns'', ''ants'', ''rel'', ''near''])"

chapter \<open>Properties\<close>

section \<open>Audio subdirectory and URL\<close>

lemma startswith_take: "startswith s p = (take (length p) s = p)"
  by (induction s p rule: startswith.induct) auto

lemma startswith_gg: "startswith F ''gg'' = (take 2 F = ''gg'')"
  using startswith_take [of F "''gg''"] by (simp add: numeral_2_eq_2)

lemma get_audio_subdirectory_str:
  "get_audio_subdirectory (JStr F) = Inr (subdirectory_rule F)"
proof (cases F)
  case Nil
  then show ?thesis
    by (simp add: get_audio_subdirectory_def truthy_def subdirectory_rule_def)
next
  case (Cons c cs)
  have digit: "startswith_any (c # cs) digit_prefixes = (c \<in> set ''0123456789'')"
    by (auto simp: startswith_any_def digit_prefixes_def)
  have punct: "startswith_any (c # cs) [''_'', ''.'', ''!'', ''?'', '',''] = (c \<in> set ''_.!?,'')"
    by (auto simp: startswith_any_def)
  show ?thesis
    unfolding Cons get_audio_subdirectory_def subdirectory_rule_def
    by (simp only: json.case truthy_def list.simps digit punct startswith_gg list.sel
        if_False not_False_eq_True not_not simp_thms if_True if_distrib [of Inr])
qed

text \<open>
  C2. For every filename string \<open>F\<close> the subdirectory is the one the five rules give, in
  their order: the empty name gives \<open>bix\<close>, a leading ASCII digit gives \<open>number\<close>, a leading
  \<open>_ . ! ? ,\<close> gives \<open>bix\<close>, a leading \<open>gg\<close> gives \<open>gg\<close>, and any other name gives its first
  character in lower case. For a pronunciation whose sound names a non-empty file \<open>F\<close>,
  the audio record's URL is the base, the subdirectory, a slash, \<open>F\<close> and \<open>.mp3\<close>.
\<close>

theorem audio_subdirectory_and_url:
  "get_audio_subdirectory (JStr F) = Inr (subdirectory_rule F) \<and>
   (F \<noteq> [] \<and> map_of p ''sound'' = Some (JDict s) \<and> map_of s ''audio'' = Some (JStr F) \<and>
    py_get (JDict e) ''meta'' (JDict []) = Inr (JDict m) \<longrightarrow>
    audio_info_of (JDict e) audio_files (JDict p) =
      Inr (audio_files @
        [JDict [(''url'', JStr (base_audio_url @ subdirectory_rule F @ ''/'' @ F @ ''.mp3'')),
                (''filename'', JStr F),
                (''pronunciation'', case map_of p ''mw'' of None \<Rightarrow> JStr '''' | Some x \<Rightarrow> x),
                (''entry_id'', case map_of m ''id'' of None \<Rightarrow> JStr '''' | Some x \<Rightarrow> x)]]))"
proof (intro conjI impI)
  show "get_audio_subdirectory (JStr F) = Inr (subdirectory_rule F)"
    by (rule get_audio_subdirectory_str)
next
  assume h: "F \<noteq> [] \<and> map_of p ''sound'' = Some (JDict s) \<and>
             map_of s ''audio'' = Some (JStr F) \<and>
             py_get (JDict e) ''meta'' (JDict []) = Inr (JDict m)"
  then show "audio_info_of (JDict e) audio_files (JDict p) =
      Inr (audio_files @
        [JDict [(''url'', JStr (base_audio_url @ subdirectory_rule F @ ''/'' @ F @ ''.mp3'')),
                (''filename'', JStr F),
                (''pronunciation'', case map_of p ''mw'' of None \<Rightarrow> JStr '''' | Some x \<Rightarrow> x),
                (''entry_id'', case map_of m ''id'' of None \<Rightarrow> JStr '''' | Some x \<Rightarrow> x)]])"
    by (simp add: audio_info_of_def ebind_def py_in_def getitem_def truthy_def
        get_audio_subdirectory_str py_str_def py_get_def)
qed

theorem audio_subdirectory_and_url_witness:
  "get_audio_subdirectory (JStr ''ggplot'') = Inr ''gg'' \<and>
   get_audio_subdirectory (JStr ''Cat'') = Inr ''c'' \<and>
   audio_info_of (JDict [(''meta'', JDict [(''id'', JStr ''cat:1'')])]) []
       (JDict [(''mw'', JStr ''kat''), (''sound'', JDict [(''audio'', JStr ''cat00001'')])]) =
     Inr [JDict [(''url'', JStr ''https://media.merriam-webster.com/audio/prons/en/us/mp3/c/cat00001.mp3''),
                 (''filename'', JStr ''cat00001''),
                 (''pronunciation'', JStr ''kat''),
                 (''entry_id'', JStr ''cat:1'')]]"
proof -
  have sub: "subdirectory_rule ''ggplot'' = ''gg''" "subdirectory_rule ''Cat'' = ''c''"
    "subdirectory_rule ''cat00001'' = ''c''"
    by code_simp+
  have hyp: "''cat00001'' \<noteq> [] \<and>
      map_of [(''mw'', JStr ''kat''), (''sound'', JDict [(''audio'', JStr ''cat00001'')])] ''sound''
        = Some (JDict [(''audio'', JStr ''cat00001'')]) \<and>
      map_of [(''audio'', JStr ''cat00001'')] ''audio'' = Some (JStr ''cat00001'') \<and>
      py_get (JDict [(''meta'', JDict [(''id'', JStr ''cat:1'')])]) ''meta'' (JDict [])
        = Inr (JDict [(''id'', JStr ''cat:1'')])"
    by (simp add: py_get_def)
  show ?thesis
    using audio_subdirectory_and_url [of "''ggplot''"]
      audio_subdirectory_and_url [of "''Cat''"]
      audio_subdirectory_and_url [of "''cat00001''"
        "[(''mw'', JStr ''kat''), (''sound'', JDict [(''audio'', JStr ''cat00001'')])]"
        "[(''audio'', JStr ''cat00001'')]"
        "[(''meta'', JDict [(''id'', JStr ''cat:1'')])]"
        "[(''id'', JStr ''cat:1'')]" "[]"] hyp
    by (simp add: sub base_audio_url_def)
qed

section \<open>Favorites keep one entry per word\<close>

lemma same_word_Inr:
  assumes "same_word word fav = Inr b"
  shows "\<exists>s t. word = JStr s \<and> getitem fav ''Word'' = Inr (JStr t) \<and> b = (lower t = lower s)"
proof -
  from assms obtain x where x: "getitem fav ''Word'' = Inr x"
    by (cases "getitem fav ''Word''") (auto simp: same_word_def ebind_def)
  from assms x obtain t where t: "x = JStr t"
    by (cases x) (auto simp: same_word_def ebind_def py_lower_def)
  from assms x t obtain s where s: "word = JStr s"
    by (cases word) (auto simp: same_word_def ebind_def py_lower_def)
  from assms x t s have "b = (lower t = lower s)"
    by (auto simp: same_word_def ebind_def py_lower_def)
  with x t s show ?thesis by blast
qed

lemma same_word_lower:
  "lower a = lower b \<Longrightarrow> same_word (JStr a) fav = same_word (JStr b) fav"
  by (simp add: same_word_def py_lower_def)

lemma any_same_word_lower:
  "lower a = lower b \<Longrightarrow> any_same_word (JStr a) favs = any_same_word (JStr b) favs"
  by (induction favs) (simp_all add: same_word_lower [of a b] cong: if_cong)

lemma any_same_word_False:
  "any_same_word (JStr s) favs = Inr False \<Longrightarrow> lower s \<notin> set (lowered_words favs)"
proof (induction favs)
  case Nil
  then show ?case by (simp add: lowered_words_def)
next
  case (Cons fav favs)
  from Cons.prems obtain b where b: "same_word (JStr s) fav = Inr b"
    by (cases "same_word (JStr s) fav") (auto simp: ebind_def)
  with Cons.prems have nb: "\<not> b" and rest: "any_same_word (JStr s) favs = Inr False"
    by (auto simp: ebind_def split: if_splits)
  from same_word_Inr [OF b] nb obtain t where
    t: "getitem fav ''Word'' = Inr (JStr t)" "lower t \<noteq> lower s" by auto
  then have "word_of fav = Some (lower t)" by (simp add: word_of_def)
  with t Cons.IH [OF rest] show ?case
    by (auto simp: lowered_words_def List.map_filter_simps)
qed

lemma any_same_word_append:
  "any_same_word word favs = Inr False \<Longrightarrow>
   any_same_word word (favs @ [fav]) = same_word word fav"
proof (induction favs)
  case Nil
  show ?case by (cases "same_word word fav") (auto simp: ebind_def)
next
  case (Cons f favs)
  then show ?case
    by (cases "same_word word f") (auto simp: ebind_def split: if_splits)
qed

lemma any_same_word_True:
  "any_same_word (JStr s) favs = Inr True \<Longrightarrow> lower s \<in> set (lowered_words favs)"
proof (induction favs)
  case Nil
  then show ?case by simp
next
  case (Cons fav favs)
  from Cons.prems obtain b where b: "same_word (JStr s) fav = Inr b"
    by (cases "same_word (JStr s) fav") (auto simp: ebind_def)
  show ?case
  proof (cases b)
    case True
    with same_word_Inr [OF b] have "word_of fav = Some (lower s)"
      by (auto simp: word_of_def)
    then show ?thesis by (simp add: lowered_words_def List.map_filter_simps)
  next
    case False
    with Cons.prems b have "any_same_word (JStr s) favs = Inr True"
      by (simp add: ebind_def)
    from Cons.IH [OF this] show ?thesis
      by (auto simp: lowered_words_def List.map_filter_simps split: option.splits)
  qed
qed

lemma lowered_words_append:
  "lowered_words (xs @ ys) = lowered_words xs @ lowered_words ys"
  by (simp add: lowered_words_def List.map_filter_def)

lemma other_words_lowered:
  "other_words w favs = Inr kept \<Longrightarrow>
   set (lowered_words kept) \<subseteq> set (lowered_words favs) \<and>
   (distinct (lowered_words favs) \<longrightarrow> distinct (lowered_words kept)) \<and>
   lower w \<notin> set (lowered_words kept)"
proof (induction favs arbitrary: kept)
  case Nil
  then show ?case by (simp add: lowered_words_def List.map_filter_simps)
next
  case (Cons fav favs)
  from Cons.prems obtain b where b: "same_word (JStr w) fav = Inr b"
    by (cases "same_word (JStr w) fav") (auto simp: ebind_def)
  from Cons.prems b obtain k where k: "other_words w favs = Inr k"
    and kept: "kept = (if b then k else fav # k)"
    by (cases "other_words w favs") (auto simp: ebind_def)
  note IH = Cons.IH [OF k]
  from same_word_Inr [OF b] obtain t where
    t: "getitem fav ''Word'' = Inr (JStr t)" "b = (lower t = lower w)" by auto
  then have wf: "word_of fav = Some (lower t)" by (simp add: word_of_def)
  have lw: "lowered_words (fav # xs) = lower t # lowered_words xs" for xs
    using wf by (simp add: lowered_words_def List.map_filter_simps)
  show ?case
  proof (cases b)
    case True
    with kept IH show ?thesis by (auto simp: lw)
  next
    case False
    with kept IH t show ?thesis by (auto simp: lw)
  qed
qed

lemma add_favorite_keeps:
  assumes inv: "one_per_word favs"
    and add: "add_favorite favs data = Inr (resp, favs')"
  shows "one_per_word favs'"
proof -
  show ?thesis
  proof (cases "py_get data ''word_data'' JNull")
    case (Inl e)
    with add show ?thesis by (simp add: add_favorite_def ebind_def)
  next
    case (Inr word_data)
    show ?thesis
    proof (cases "truthy word_data")
      case False
      with add Inr inv show ?thesis by (simp add: add_favorite_def ebind_def)
    next
      case True
      with add Inr obtain word where word: "py_get word_data ''Word'' (JStr '''') = Inr word"
        by (cases "py_get word_data ''Word'' (JStr '''')") (auto simp: add_favorite_def ebind_def)
      with add Inr True obtain present where
        present: "any_same_word word favs = Inr present"
        by (cases "any_same_word word favs") (auto simp: add_favorite_def ebind_def)
      show ?thesis
      proof (cases present)
        case True
        with add Inr \<open>truthy word_data\<close> word present inv show ?thesis
          by (simp add: add_favorite_def ebind_def)
      next
        case False
        with add Inr \<open>truthy word_data\<close> word present have favs': "favs' = favs @ [word_data]"
          by (simp add: add_favorite_def ebind_def)
        show ?thesis
        proof (cases "word_of word_data")
          case None
          with inv show ?thesis
            by (simp add: favs' one_per_word_def lowered_words_append)
               (simp add: lowered_words_def List.map_filter_simps)
        next
          case (Some k)
          then obtain s where s: "getitem word_data ''Word'' = Inr (JStr s)" "k = lower s"
            by (auto simp: word_of_def split: sum.splits json.splits)
          with word have "word = JStr s"
            by (auto simp: py_get_def getitem_def split: json.splits option.splits)
          with present False have "lower s \<notin> set (lowered_words favs)"
            by (simp add: any_same_word_False)
          with inv Some s show ?thesis
            by (simp add: favs' one_per_word_def lowered_words_append)
               (simp add: lowered_words_def List.map_filter_simps)
        qed
      qed
    qed
  qed
qed

lemma remove_favorite_keeps:
  assumes inv: "one_per_word favs"
    and rm: "remove_favorite favs w = Inr (resp, favs')"
  shows "one_per_word favs'"
proof -
  from rm have "other_words w favs = Inr favs'"
    by (cases "other_words w favs") (auto simp: remove_favorite_def ebind_def split: if_splits)
  from other_words_lowered [OF this] inv show ?thesis
    by (simp add: one_per_word_def)
qed

lemma second_add_same_word:
  assumes inv: "one_per_word favs"
    and h: "add_favorite favs (JDict [(''word_data'', JDict kvs)]) = Inr (r1, f1) \<and>
            add_favorite f1 (JDict [(''word_data'', JDict kws)]) = Inr (r2, f2) \<and>
            map_of kvs ''Word'' = Some (JStr a) \<and> map_of kws ''Word'' = Some (JStr b) \<and>
            lower a = lower b"
  shows "f2 = f1 \<and> one_per_word f2 \<and> lower a \<in> set (lowered_words f2)"
proof -
  from h have kvs: "kvs \<noteq> []" and kws: "kws \<noteq> []" by auto
  from h have wa: "word_of (JDict kvs) = Some (lower a)"
    by (simp add: word_of_def getitem_def)
  from h kvs obtain p1 where p1: "any_same_word (JStr a) favs = Inr p1"
    by (cases "any_same_word (JStr a) favs")
       (auto simp: add_favorite_def ebind_def py_get_def truthy_def)
  have f1: "f1 = (if p1 then favs else favs @ [JDict kvs])"
    using h kvs p1 by (auto simp: add_favorite_def ebind_def py_get_def truthy_def)
  have same: "same_word (JStr a) (JDict kvs) = Inr True"
    using h by (simp add: same_word_def getitem_def ebind_def py_lower_def)
  have hit: "any_same_word (JStr a) f1 = Inr True"
  proof (cases p1)
    case True
    with p1 f1 show ?thesis by simp
  next
    case False
    with p1 f1 same show ?thesis by (simp add: any_same_word_append)
  qed
  from h have "any_same_word (JStr b) f1 = any_same_word (JStr a) f1"
    by (simp add: any_same_word_lower [of a b])
  with hit h kws have f2: "f2 = f1"
    by (auto simp: add_favorite_def ebind_def py_get_def truthy_def)
  have inv1: "one_per_word f1"
  proof (cases p1)
    case True
    with f1 inv show ?thesis by simp
  next
    case False
    with p1 have "lower a \<notin> set (lowered_words favs)"
      by (simp add: any_same_word_False)
    with inv wa False f1 show ?thesis
      by (simp add: one_per_word_def lowered_words_append)
         (simp add: lowered_words_def List.map_filter_simps)
  qed
  from hit have "lower a \<in> set (lowered_words f1)" by (rule any_same_word_True)
  with f2 inv1 show ?thesis
    by simp
qed

text \<open>
  C9. Every favorites operation keeps the collection at one entry per case-insensitive
  \<^verbatim>\<open>Word\<close>: when the collection has at most one entry per word, so has the collection that
  add, remove or clear leaves. An add whose word differs from the word of a
  preceding add only in case changes nothing, and the word is in the collection:
  adding \<^verbatim>\<open>Cat\<close> and then \<^verbatim>\<open>cat\<close> leaves one entry.
\<close>

theorem favorites_one_per_word:
  assumes inv: "one_per_word favs"
  shows "(add_favorite favs data = Inr (resp, favs') \<longrightarrow> one_per_word favs') \<and>
         (remove_favorite favs w = Inr (resp, favs') \<longrightarrow> one_per_word favs') \<and>
         one_per_word (snd (clear_favorites favs)) \<and>
         (add_favorite favs (JDict [(''word_data'', JDict kvs)]) = Inr (r1, f1) \<and>
          add_favorite f1 (JDict [(''word_data'', JDict kws)]) = Inr (r2, f2) \<and>
          map_of kvs ''Word'' = Some (JStr a) \<and> map_of kws ''Word'' = Some (JStr b) \<and>
          lower a = lower b \<longrightarrow>
          f2 = f1 \<and> one_per_word f2 \<and> lower a \<in> set (lowered_words f2))"
proof -
  have clear: "one_per_word (snd (clear_favorites favs))"
    by (simp add: clear_favorites_def one_per_word_def lowered_words_def List.map_filter_simps)
  from inv clear show ?thesis
    using add_favorite_keeps [of favs data resp favs']
      remove_favorite_keeps [of favs w resp favs']
      second_add_same_word [of favs kvs r1 f1 kws r2 f2 a b]
    by blast
qed

theorem favorites_one_per_word_witness:
  "one_per_word [] \<and>
   add_favorite [] (JDict [(''word_data'', JDict [(''Word'', JStr ''Cat'')])]) =
     Inr ((200, JDict [(''success'', JBool True),
                       (''message'', JStr (message (JStr ''Cat'') '' added to favorites''))]),
          [JDict [(''Word'', JStr ''Cat'')]]) \<and>
   add_favorite [JDict [(''Word'', JStr ''Cat'')]]
       (JDict [(''word_data'', JDict [(''Word'', JStr ''cat'')])]) =
     Inr ((200, JDict [(''success'', JBool False),
                       (''message'', JStr (message (JStr ''cat'') '' already in favorites''))]),
          [JDict [(''Word'', JStr ''Cat'')]]) \<and>
   one_per_word [JDict [(''Word'', JStr ''Cat'')]] \<and>
   lower ''Cat'' \<in> set (lowered_words [JDict [(''Word'', JStr ''Cat'')]]) \<and>
   one_per_word (snd (clear_favorites []))"
proof -
  have inv: "one_per_word []"
    by (simp add: one_per_word_def lowered_words_def List.map_filter_simps)
  have low: "lower ''Cat'' = lower ''cat''"
    by code_simp
  have a1: "add_favorite [] (JDict [(''word_data'', JDict [(''Word'', JStr ''Cat'')])]) =
     Inr ((200, JDict [(''success'', JBool True),
                       (''message'', JStr (message (JStr ''Cat'') '' added to favorites''))]),
          [JDict [(''Word'', JStr ''Cat'')]])"
    by (simp add: add_favorite_def ebind_def py_get_def truthy_def)
  have a2: "add_favorite [JDict [(''Word'', JStr ''Cat'')]]
       (JDict [(''word_data'', JDict [(''Word'', JStr ''cat'')])]) =
     Inr ((200, JDict [(''success'', JBool False),
                       (''message'', JStr (message (JStr ''cat'') '' already in favorites''))]),
          [JDict [(''Word'', JStr ''Cat'')]])"
    by (simp add: add_favorite_def ebind_def py_get_def truthy_def same_word_def getitem_def
        py_lower_def low)
  show ?thesis
    using favorites_one_per_word [OF inv,
        of "JDict [(''word_data'', JDict [(''Word'', JStr ''Cat'')])]"
           "(200, JDict [(''success'', JBool True),
                       (''message'', JStr (message (JStr ''Cat'') '' added to favorites''))])"
           "[JDict [(''Word'', JStr ''Cat'')]]" "''x''"
           "[(''Word'', JStr ''Cat'')]"
           "(200, JDict [(''success'', JBool True),
                       (''message'', JStr (message (JStr ''Cat'') '' added to favorites''))])"
           "[JDict [(''Word'', JStr ''Cat'')]]"
           "[(''Word'', JStr ''cat'')]"
           "(200, JDict [(''success'', JBool False),
                       (''message'', JStr (message (JStr ''cat'') '' already in favorites''))])"
           "[JDict [(''Word'', JStr ''Cat'')]]" "''Cat''" "''cat''"]
      inv a1 a2 low
    by simp
qed

section \<open>Strings\<close>

lemma last_dropWhile_nonempty: "dropWhile P xs \<noteq> [] \<Longrightarrow> last (dropWhile P xs) = last xs"
  by (induction xs) (auto split: if_splits)

lemma strip_ends:
  assumes "strip s \<noteq> []"
  shows "\<not> is_space (hd (strip s)) \<and> \<not> is_space (last (strip s))"
proof -
  let ?u = "dropWhile is_space s"
  let ?v = "dropWhile is_space (rev ?u)"
  from assms have v: "?v \<noteq> []"
    by (simp add: strip_def del: dropWhile_eq_Nil_conv)
  have u: "?u \<noteq> []"
  proof
    assume "?u = []"
    then have "?v = []" by (simp del: dropWhile_eq_Nil_conv)
    with v show False by contradiction
  qed
  have "hd (strip s) = last ?v"
    using v by (simp add: strip_def hd_rev del: dropWhile_eq_Nil_conv)
  also have "\<dots> = last (rev ?u)" using v by (rule last_dropWhile_nonempty)
  also have "\<dots> = hd ?u" using u by (simp add: last_rev del: dropWhile_eq_Nil_conv)
  finally have h: "hd (strip s) = hd ?u" .
  have "\<not> is_space (hd ?u)" using u by (rule hd_dropWhile)
  with h have first: "\<not> is_space (hd (strip s))" by simp
  have l: "last (strip s) = hd ?v"
    using v by (simp add: strip_def last_rev del: dropWhile_eq_Nil_conv)
  have "\<not> is_space (hd ?v)" using v by (rule hd_dropWhile)
  with l have "\<not> is_space (last (strip s))" by simp
  with first show ?thesis by simp
qed

lemma strip_no_space:
  assumes "s \<noteq> []" "\<not> is_space (hd s)" "\<not> is_space (last s)"
  shows "strip s = s"
proof -
  from assms have "dropWhile is_space s = s"
    by (cases s) auto
  moreover from assms have "dropWhile is_space (rev s) = rev s"
    by (cases "rev s") (auto simp: hd_rev)
  ultimately show ?thesis by (simp add: strip_def)
qed

lemma strip_Nil: "strip [] = []"
  by (simp add: strip_def)

lemma strip_strip: "strip (strip s) = strip s"
proof (cases "strip s = []")
  case True
  then show ?thesis by (simp add: strip_Nil)
next
  case False
  with strip_ends [OF False] show ?thesis by (simp add: strip_no_space)
qed

section \<open>The quiz check\<close>

lemma startswith_append: "startswith (p @ s) p"
  by (simp add: startswith_take)

lemma replace_absent:
  assumes "tag \<noteq> []" "hd tag \<notin> set s"
  shows "replace s tag = s"
  using assms
proof (induction s)
  case Nil
  then show ?case by simp
next
  case (Cons c cs)
  then have "\<not> startswith (c # cs) tag"
    by (cases tag) auto
  with Cons show ?case by simp
qed

lemma is_digit_char_of: "(d::nat) < 10 \<Longrightarrow> is_digit (char_of (48 + d))"
  by (simp add: is_digit_def)

lemma digit_val_char_of: "(d::nat) < 10 \<Longrightarrow> digit_val (char_of (48 + d)) = d"
  by (simp add: digit_val_def)

lemma digits_of_digits: "\<forall>c \<in> set (digits_of n). is_digit c"
proof (induction n rule: digits_of.induct)
  case (1 n)
  show ?case
  proof (cases "n < 10")
    case True
    then show ?thesis by (subst digits_of.simps) (simp add: is_digit_char_of)
  next
    case False
    with 1 show ?thesis
      by (subst digits_of.simps) (auto simp: is_digit_char_of)
  qed
qed

lemma digits_of_nonempty: "digits_of n \<noteq> []"
  by (subst digits_of.simps) simp

lemma parse_digits_snoc:
  "\<forall>c \<in> set ds. is_digit c \<Longrightarrow> is_digit d \<Longrightarrow> parse_digits acc prev ds = Some v \<Longrightarrow>
   parse_digits acc prev (ds @ [d]) = Some (10 * v + digit_val d)"
proof (induction ds arbitrary: acc prev)
  case Nil
  then show ?case by (simp split: if_splits)
next
  case (Cons c cs)
  then show ?case by simp
qed

lemma parse_digits_digits_of: "parse_digits 0 False (digits_of n) = Some n"
proof (induction n rule: digits_of.induct)
  case (1 n)
  show ?case
  proof (cases "n < 10")
    case True
    then show ?thesis
      by (subst digits_of.simps) (simp add: is_digit_char_of digit_val_char_of)
  next
    case False
    then have IH: "parse_digits 0 False (digits_of (n div 10)) = Some (n div 10)"
      using 1 by simp
    have "parse_digits 0 False (digits_of (n div 10) @ [char_of (48 + n mod 10)])
          = Some (10 * (n div 10) + digit_val (char_of (48 + n mod 10)))"
      by (rule parse_digits_snoc [OF digits_of_digits _ IH]) (simp add: is_digit_char_of)
    with False show ?thesis
      by (subst digits_of.simps) (simp add: digit_val_char_of)
  qed
qed

lemma digit_not_int_space: "is_digit c \<Longrightarrow> \<not> is_int_space c"
  by (auto simp: is_digit_def is_int_space_def)

lemma int_trim_no_space:
  assumes "s \<noteq> []" "\<not> is_int_space (hd s)" "\<not> is_int_space (last s)"
  shows "int_trim s = s"
proof -
  from assms have "dropWhile is_int_space s = s"
    by (cases s) auto
  moreover from assms have "dropWhile is_int_space (rev s) = rev s"
    by (cases "rev s") (auto simp: hd_rev)
  ultimately show ?thesis by (simp add: int_trim_def)
qed

lemma count_digits_digits_of: "count_digits (digits_of n) = length (digits_of n)"
  using digits_of_digits [of n] by (simp add: count_digits_def)

lemma py_int_digits_of:
  assumes "L = 0 \<or> length (digits_of n) \<le> L"
  shows "py_int L (digits_of n) = Inr (int n)"
proof -
  let ?ds = "digits_of n"
  have ne: "?ds \<noteq> []" by (rule digits_of_nonempty)
  then have "hd ?ds \<in> set ?ds" "last ?ds \<in> set ?ds" by simp_all
  with digits_of_digits have dh: "is_digit (hd ?ds)" and dl: "is_digit (last ?ds)"
    by blast+
  then have st: "int_trim ?ds = ?ds"
    using ne by (simp add: int_trim_no_space digit_not_int_space)
  from ne obtain c cs where c: "?ds = c # cs" by (cases ?ds) auto
  with dh have sign: "c \<noteq> CHR ''-''" "c \<noteq> CHR ''+''"
    by (auto simp: is_digit_def)
  have "read_digits L ?ds = Some n"
    using assms by (auto simp: read_digits_def parse_digits_digits_of count_digits_digits_of)
  with c st sign show ?thesis
    by (simp add: py_int_def)
qed

lemma py_int_Inl: "py_int L s = Inl e \<Longrightarrow> e = ValueError"
  by (auto simp: py_int_def split: list.splits if_splits option.splits)

lemma replace_digits: "replace (digits_of n) ''OPTION'' = digits_of n"
proof -
  have "CHR ''O'' \<notin> set (digits_of n)"
    using digits_of_digits [of n] by (auto simp: is_digit_def)
  then show ?thesis by (simp add: replace_absent)
qed

lemma replace_option_digits: "replace (''OPTION'' @ digits_of n) ''OPTION'' = digits_of n"
  by (simp add: replace_digits)

lemma check_quiz_answer_unfold:
  assumes "py_get data ''selected_option'' (JStr '''') = Inr (JStr sel)"
    and "py_get data ''correct_answer'' (JStr '''') = Inr (JStr ca)"
  shows "check_quiz_answer L data =
     ebind (if startswith (strip (upper ca)) ''OPTION''
            then resolve_option L data (JStr sel) (strip (upper ca))
            else Inr (JStr (strip (upper ca)))) (\<lambda>correct_option_text.
       ebind (strip_lower correct_option_text) (\<lambda>wanted.
         Inr (JDict [(''is_correct'', JBool (lower (strip sel) = wanted)),
                     (''correct_answer'', correct_option_text)])))"
  using assms
  by (simp add: check_quiz_answer_def ebind_def py_upper_def strip_lower_def Let_def
      split: sum.splits)

lemma resolve_option_int:
  assumes "py_get data ''options'' (JList []) = Inr (JList opts)"
    and "py_int L (replace ref ''OPTION'') = Inr k"
  shows "resolve_option L data selected ref =
     (if 1 \<le> k \<and> k \<le> int (length opts) then Inr (opts ! nat (k - 1)) else Inr selected)"
proof (cases "1 \<le> k \<and> k \<le> int (length opts)")
  case True
  then have "0 \<le> k - 1" "k - 1 < int (length opts)" "nat (k - 1) < length opts"
    by arith+
  with True assms show ?thesis
    by (simp add: resolve_option_def ebind_def py_len_def getindex_def Let_def)
next
  case False
  then have "\<not> 0 \<le> k - 1 \<or> \<not> k - 1 < int (length opts)" by auto
  with False assms show ?thesis
    by (auto simp: resolve_option_def ebind_def py_len_def getindex_def Let_def)
qed

lemma resolve_option_no_int:
  assumes "\<forall>k. py_int L (replace ref ''OPTION'') \<noteq> Inr k"
  shows "resolve_option L data selected ref = Inr selected"
proof (cases "py_int L (replace ref ''OPTION'')")
  case (Inl e)
  with py_int_Inl [OF Inl] show ?thesis by (simp add: resolve_option_def)
next
  case (Inr k)
  with assms show ?thesis by simp
qed

text \<open>
  C8, as the code has it. The answer is raised to upper case and trimmed. When the result
  does not start with \<^verbatim>\<open>OPTION\<close>, it is the resolved text. When it starts with \<^verbatim>\<open>OPTION\<close>,
  every \<^verbatim>\<open>OPTION\<close> in it is removed and the rest is read as \<^verbatim>\<open>int\<close> reads a string: blanks
  around, a sign, decimal digits with single underscores between them, no more digits
  than the interpreter's limit. If that gives \<open>k\<close> with \<open>1 \<le> k \<le> length options\<close>, the resolved
  text is the \<open>k\<close>th option; if \<open>k\<close> is out of that range, or the rest does not read as an
  integer, the resolved text is the submitted \<^verbatim>\<open>selected_option\<close>, so the answer counts as
  correct. \<^verbatim>\<open>OPTION\<close> followed by the decimal form of \<open>n\<close> reads as \<open>n\<close>. \<^verbatim>\<open>is_correct\<close> compares
  the selected option and the resolved text trimmed and in lower case, and
  \<^verbatim>\<open>correct_answer\<close> is the resolved text.
\<close>

theorem quiz_check_resolution:
  assumes sel: "py_get data ''selected_option'' (JStr '''') = Inr (JStr sel)"
    and ca: "py_get data ''correct_answer'' (JStr '''') = Inr (JStr ca)"
    and opts: "py_get data ''options'' (JList []) = Inr (JList opts)"
  shows "(\<not> startswith (strip (upper ca)) ''OPTION'' \<longrightarrow>
          check_quiz_answer L data =
            Inr (JDict [(''is_correct'', JBool (lower (strip sel) = lower (strip (upper ca)))),
                        (''correct_answer'', JStr (strip (upper ca)))])) \<and>
         (startswith (strip (upper ca)) ''OPTION'' \<and>
          py_int L (replace (strip (upper ca)) ''OPTION'') = Inr k \<and>
          1 \<le> k \<and> k \<le> int (length opts) \<and> opts ! nat (k - 1) = JStr t \<longrightarrow>
          check_quiz_answer L data =
            Inr (JDict [(''is_correct'', JBool (lower (strip sel) = lower (strip t))),
                        (''correct_answer'', JStr t)])) \<and>
         (startswith (strip (upper ca)) ''OPTION'' \<and>
          py_int L (replace (strip (upper ca)) ''OPTION'') = Inr k \<and>
          (k < 1 \<or> int (length opts) < k) \<longrightarrow>
          check_quiz_answer L data =
            Inr (JDict [(''is_correct'', JBool True), (''correct_answer'', JStr sel)])) \<and>
         (startswith (strip (upper ca)) ''OPTION'' \<and>
          (\<forall>j. py_int L (replace (strip (upper ca)) ''OPTION'') \<noteq> Inr j) \<longrightarrow>
          check_quiz_answer L data =
            Inr (JDict [(''is_correct'', JBool True), (''correct_answer'', JStr sel)])) \<and>
         (strip (upper ca) = ''OPTION'' @ digits_of n \<and> (L = 0 \<or> length (digits_of n) \<le> L) \<longrightarrow>
          startswith (strip (upper ca)) ''OPTION'' \<and>
          py_int L (replace (strip (upper ca)) ''OPTION'') = Inr (int n))"
proof (intro conjI impI)
  assume "\<not> startswith (strip (upper ca)) ''OPTION''"
  then show "check_quiz_answer L data =
            Inr (JDict [(''is_correct'', JBool (lower (strip sel) = lower (strip (upper ca)))),
                        (''correct_answer'', JStr (strip (upper ca)))])"
    by (simp add: check_quiz_answer_unfold [OF sel ca] ebind_def strip_lower_def strip_strip)
next
  assume h: "startswith (strip (upper ca)) ''OPTION'' \<and>
          py_int L (replace (strip (upper ca)) ''OPTION'') = Inr k \<and>
          1 \<le> k \<and> k \<le> int (length opts) \<and> opts ! nat (k - 1) = JStr t"
  then have k: "py_int L (replace (strip (upper ca)) ''OPTION'') = Inr k" by simp
  have ro: "resolve_option L data (JStr sel) (strip (upper ca)) = Inr (JStr t)"
    unfolding resolve_option_int [OF opts k] using h by simp
  from h show "check_quiz_answer L data =
            Inr (JDict [(''is_correct'', JBool (lower (strip sel) = lower (strip t))),
                        (''correct_answer'', JStr t)])"
    by (simp add: check_quiz_answer_unfold [OF sel ca] ro ebind_def strip_lower_def)
next
  assume h: "startswith (strip (upper ca)) ''OPTION'' \<and>
          py_int L (replace (strip (upper ca)) ''OPTION'') = Inr k \<and>
          (k < 1 \<or> int (length opts) < k)"
  then have k: "py_int L (replace (strip (upper ca)) ''OPTION'') = Inr k" by simp
  have ro: "resolve_option L data (JStr sel) (strip (upper ca)) = Inr (JStr sel)"
    unfolding resolve_option_int [OF opts k] using h by auto
  from h show "check_quiz_answer L data =
            Inr (JDict [(''is_correct'', JBool True), (''correct_answer'', JStr sel)])"
    by (simp add: check_quiz_answer_unfold [OF sel ca] ro ebind_def strip_lower_def)
next
  assume h: "startswith (strip (upper ca)) ''OPTION'' \<and>
          (\<forall>j. py_int L (replace (strip (upper ca)) ''OPTION'') \<noteq> Inr j)"
  then have ro: "resolve_option L data (JStr sel) (strip (upper ca)) = Inr (JStr sel)"
    by (simp add: resolve_option_no_int)
  from h show "check_quiz_answer L data =
            Inr (JDict [(''is_correct'', JBool True), (''correct_answer'', JStr sel)])"
    by (simp add: check_quiz_answer_unfold [OF sel ca] ro ebind_def strip_lower_def)
next
  assume h: "strip (upper ca) = ''OPTION'' @ digits_of n \<and> (L = 0 \<or> length (digits_of n) \<le> L)"
  then have ref: "strip (upper ca) = ''OPTION'' @ digits_of n" by simp
  show "startswith (strip (upper ca)) ''OPTION''"
    unfolding ref by (rule startswith_append)
next
  assume h: "strip (upper ca) = ''OPTION'' @ digits_of n \<and> (L = 0 \<or> length (digits_of n) \<le> L)"
  then have ref: "strip (upper ca) = ''OPTION'' @ digits_of n" by simp
  from h have "py_int L (digits_of n) = Inr (int n)" by (simp add: py_int_digits_of)
  then show "py_int L (replace (strip (upper ca)) ''OPTION'') = Inr (int n)"
    unfolding ref replace_option_digits .
qed

theorem quiz_check_resolution_witness:
  "check_quiz_answer 4300
     (JDict [(''selected_option'', JStr ''paris''), (''correct_answer'', JStr ''Paris ''),
            (''options'', JList [JStr ''x'', JStr ''y'', JStr ''z''])]) =
     Inr (JDict [(''is_correct'', JBool True), (''correct_answer'', JStr ''PARIS'')]) \<and>
   check_quiz_answer 4300
     (JDict [(''selected_option'', JStr '' Y ''), (''correct_answer'', JStr ''option2''),
            (''options'', JList [JStr ''x'', JStr ''y'', JStr ''z''])]) =
     Inr (JDict [(''is_correct'', JBool True), (''correct_answer'', JStr ''y'')]) \<and>
   check_quiz_answer 4300
     (JDict [(''selected_option'', JStr ''x''), (''correct_answer'', JStr ''option3''),
            (''options'', JList [JStr ''x'', JStr ''y'', JStr ''z''])]) =
     Inr (JDict [(''is_correct'', JBool False), (''correct_answer'', JStr ''z'')]) \<and>
   check_quiz_answer 4300
     (JDict [(''selected_option'', JStr ''x''), (''correct_answer'', JStr ''OPTION9''),
            (''options'', JList [JStr ''x'', JStr ''y'', JStr ''z''])]) =
     Inr (JDict [(''is_correct'', JBool True), (''correct_answer'', JStr ''x'')]) \<and>
   check_quiz_answer 4300
     (JDict [(''selected_option'', JStr ''q''), (''correct_answer'', JStr ''optional''),
            (''options'', JList [JStr ''x'', JStr ''y'', JStr ''z''])]) =
     Inr (JDict [(''is_correct'', JBool True), (''correct_answer'', JStr ''q'')]) \<and>
   check_quiz_answer 4300
     (JDict [(''selected_option'', JStr ''y''), (''correct_answer'', JStr ''OPTION2OPTION''),
            (''options'', JList [JStr ''x'', JStr ''y'', JStr ''z''])]) =
     Inr (JDict [(''is_correct'', JBool True), (''correct_answer'', JStr ''y'')]) \<and>
   check_quiz_answer 4300
     (JDict [(''selected_option'', JStr ''y''), (''correct_answer'', JStr ''OPTION 2''),
            (''options'', JList [JStr ''x'', JStr ''y'', JStr ''z''])]) =
     Inr (JDict [(''is_correct'', JBool True), (''correct_answer'', JStr ''y'')]) \<and>
   check_quiz_answer 4300
     (JDict [(''selected_option'', JStr ''y''), (''correct_answer'', JStr ''OPTION02''),
            (''options'', JList [JStr ''x'', JStr ''y'', JStr ''z''])]) =
     Inr (JDict [(''is_correct'', JBool True), (''correct_answer'', JStr ''y'')]) \<and>
   check_quiz_answer 4300
     (JDict [(''selected_option'', JStr ''y''), (''correct_answer'', JStr ''OPTION+2''),
            (''options'', JList [JStr ''x'', JStr ''y'', JStr ''z''])]) =
     Inr (JDict [(''is_correct'', JBool True), (''correct_answer'', JStr ''y'')]) \<and>
   check_quiz_answer 4300
     (JDict [(''selected_option'', JStr ''x''), (''correct_answer'', JStr ''OPTION1_0''),
            (''options'', JList [JStr ''x'', JStr ''y'', JStr ''z''])]) =
     Inr (JDict [(''is_correct'', JBool True), (''correct_answer'', JStr ''x'')]) \<and>
   check_quiz_answer 4300
     (JDict [(''selected_option'', JStr ''x''), (''correct_answer'', JStr ''OPTION-2''),
            (''options'', JList [JStr ''x'', JStr ''y'', JStr ''z''])]) =
     Inr (JDict [(''is_correct'', JBool True), (''correct_answer'', JStr ''x'')]) \<and>
   check_quiz_answer 4300
     (JDict [(''selected_option'', JStr ''x''), (''correct_answer'', JStr (''option'' @ [CHR 0x1C] @ ''2'')),
            (''options'', JList [JStr ''x'', JStr ''y'', JStr ''z''])]) =
     Inr (JDict [(''is_correct'', JBool True), (''correct_answer'', JStr ''x'')])"
proof -
  have s1: "py_get (JDict [(''selected_option'', JStr ''paris''), (''correct_answer'', JStr ''Paris ''),
            (''options'', JList [JStr ''x'', JStr ''y'', JStr ''z''])]) ''selected_option'' (JStr '''') = Inr (JStr ''paris'')"
    and c1: "py_get (JDict [(''selected_option'', JStr ''paris''), (''correct_answer'', JStr ''Paris ''),
            (''options'', JList [JStr ''x'', JStr ''y'', JStr ''z''])]) ''correct_answer'' (JStr '''') = Inr (JStr ''Paris '')"
    and o1: "py_get (JDict [(''selected_option'', JStr ''paris''), (''correct_answer'', JStr ''Paris ''),
            (''options'', JList [JStr ''x'', JStr ''y'', JStr ''z''])]) ''options'' (JList []) = Inr (JList [JStr ''x'', JStr ''y'', JStr ''z''])"
    by (simp_all add: py_get_def)
  have h1: "\<not> startswith (strip (upper ''Paris '')) ''OPTION''"
    and v1: "(lower (strip ''paris'') = lower (strip (upper ''Paris ''))) = True" "strip (upper ''Paris '') = ''PARIS''"
    by code_simp+
  have r1: "check_quiz_answer 4300
     (JDict [(''selected_option'', JStr ''paris''), (''correct_answer'', JStr ''Paris ''),
            (''options'', JList [JStr ''x'', JStr ''y'', JStr ''z''])]) =
     Inr (JDict [(''is_correct'', JBool True), (''correct_answer'', JStr ''PARIS'')])"
    using quiz_check_resolution [OF s1 c1 o1, where L = 4300] h1 v1 by simp
  have s2: "py_get (JDict [(''selected_option'', JStr '' Y ''), (''correct_answer'', JStr ''option2''),
            (''options'', JList [JStr ''x'', JStr ''y'', JStr ''z''])]) ''selected_option'' (JStr '''') = Inr (JStr '' Y '')"
    and c2: "py_get (JDict [(''selected_option'', JStr '' Y ''), (''correct_answer'', JStr ''option2''),
            (''options'', JList [JStr ''x'', JStr ''y'', JStr ''z''])]) ''correct_answer'' (JStr '''') = Inr (JStr ''option2'')"
    and o2: "py_get (JDict [(''selected_option'', JStr '' Y ''), (''correct_answer'', JStr ''option2''),
            (''options'', JList [JStr ''x'', JStr ''y'', JStr ''z''])]) ''options'' (JList []) = Inr (JList [JStr ''x'', JStr ''y'', JStr ''z''])"
    by (simp_all add: py_get_def)
  have h2: "strip (upper ''option2'') = ''OPTION'' @ digits_of 2 \<and> (4300 = (0::nat) \<or> length (digits_of 2) \<le> 4300)"
    and v2: "(lower (strip '' Y '') = lower (strip ''y'')) = True"
    by code_simp+
  have r2: "check_quiz_answer 4300
     (JDict [(''selected_option'', JStr '' Y ''), (''correct_answer'', JStr ''option2''),
            (''options'', JList [JStr ''x'', JStr ''y'', JStr ''z''])]) =
     Inr (JDict [(''is_correct'', JBool True), (''correct_answer'', JStr ''y'')])"
    using quiz_check_resolution [OF s2 c2 o2, where L = 4300 and n = 2 and k = 2 and t = "''y''"] h2 v2 by simp
  have s3: "py_get (JDict [(''selected_option'', JStr ''x''), (''correct_answer'', JStr ''option3''),
            (''options'', JList [JStr ''x'', JStr ''y'', JStr ''z''])]) ''selected_option'' (JStr '''') = Inr (JStr ''x'')"
    and c3: "py_get (JDict [(''selected_option'', JStr ''x''), (''correct_answer'', JStr ''option3''),
            (''options'', JList [JStr ''x'', JStr ''y'', JStr ''z''])]) ''correct_answer'' (JStr '''') = Inr (JStr ''option3'')"
    and o3: "py_get (JDict [(''selected_option'', JStr ''x''), (''correct_answer'', JStr ''option3''),
            (''options'', JList [JStr ''x'', JStr ''y'', JStr ''z''])]) ''options'' (JList []) = Inr (JList [JStr ''x'', JStr ''y'', JStr ''z''])"
    by (simp_all add: py_get_def)
  have h3: "startswith (strip (upper ''option3'')) ''OPTION''"
      "py_int 4300 (replace (strip (upper ''option3'')) ''OPTION'') = Inr 3"
    and v3: "(lower (strip ''x'') = lower (strip ''z'')) = False"
    by code_simp+
  have r3: "check_quiz_answer 4300
     (JDict [(''selected_option'', JStr ''x''), (''correct_answer'', JStr ''option3''),
            (''options'', JList [JStr ''x'', JStr ''y'', JStr ''z''])]) =
     Inr (JDict [(''is_correct'', JBool False), (''correct_answer'', JStr ''z'')])"
    using quiz_check_resolution [OF s3 c3 o3, where L = 4300 and k = 3 and t = "''z''"] h3 v3 by simp
  have s4: "py_get (JDict [(''selected_option'', JStr ''x''), (''correct_answer'', JStr ''OPTION9''),
            (''options'', JList [JStr ''x'', JStr ''y'', JStr ''z''])]) ''selected_option'' (JStr '''') = Inr (JStr ''x'')"
    and c4: "py_get (JDict [(''selected_option'', JStr ''x''), (''correct_answer'', JStr ''OPTION9''),
            (''options'', JList [JStr ''x'', JStr ''y'', JStr ''z''])]) ''correct_answer'' (JStr '''') = Inr (JStr ''OPTION9'')"
    and o4: "py_get (JDict [(''selected_option'', JStr ''x''), (''correct_answer'', JStr ''OPTION9''),
            (''options'', JList [JStr ''x'', JStr ''y'', JStr ''z''])]) ''options'' (JList []) = Inr (JList [JStr ''x'', JStr ''y'', JStr ''z''])"
    by (simp_all add: py_get_def)
  have h4: "startswith (strip (upper ''OPTION9'')) ''OPTION''"
      "py_int 4300 (replace (strip (upper ''OPTION9'')) ''OPTION'') = Inr 9"
    by code_simp+
  have r4: "check_quiz_answer 4300
     (JDict [(''selected_option'', JStr ''x''), (''correct_answer'', JStr ''OPTION9''),
            (''options'', JList [JStr ''x'', JStr ''y'', JStr ''z''])]) =
     Inr (JDict [(''is_correct'', JBool True), (''correct_answer'', JStr ''x'')])"
    using quiz_check_resolution [OF s4 c4 o4, where L = 4300 and k = "9"] h4 by simp
  have s5: "py_get (JDict [(''selected_option'', JStr ''q''), (''correct_answer'', JStr ''optional''),
            (''options'', JList [JStr ''x'', JStr ''y'', JStr ''z''])]) ''selected_option'' (JStr '''') = Inr (JStr ''q'')"
    and c5: "py_get (JDict [(''selected_option'', JStr ''q''), (''correct_answer'', JStr ''optional''),
            (''options'', JList [JStr ''x'', JStr ''y'', JStr ''z''])]) ''correct_answer'' (JStr '''') = Inr (JStr ''optional'')"
    and o5: "py_get (JDict [(''selected_option'', JStr ''q''), (''correct_answer'', JStr ''optional''),
            (''options'', JList [JStr ''x'', JStr ''y'', JStr ''z''])]) ''options'' (JList []) = Inr (JList [JStr ''x'', JStr ''y'', JStr ''z''])"
    by (simp_all add: py_get_def)
  have h5: "startswith (strip (upper ''optional'')) ''OPTION''"
      "py_int 4300 (replace (strip (upper ''optional'')) ''OPTION'') = Inl ValueError"
    by code_simp+
  have r5: "check_quiz_answer 4300
     (JDict [(''selected_option'', JStr ''q''), (''correct_answer'', JStr ''optional''),
            (''options'', JList [JStr ''x'', JStr ''y'', JStr ''z''])]) =
     Inr (JDict [(''is_correct'', JBool True), (''correct_answer'', JStr ''q'')])"
    using quiz_check_resolution [OF s5 c5 o5, where L = 4300] h5 by simp
  have s6: "py_get (JDict [(''selected_option'', JStr ''y''), (''correct_answer'', JStr ''OPTION2OPTION''),
            (''options'', JList [JStr ''x'', JStr ''y'', JStr ''z''])]) ''selected_option'' (JStr '''') = Inr (JStr ''y'')"
    and c6: "py_get (JDict [(''selected_option'', JStr ''y''), (''correct_answer'', JStr ''OPTION2OPTION''),
            (''options'', JList [JStr ''x'', JStr ''y'', JStr ''z''])]) ''correct_answer'' (JStr '''') = Inr (JStr ''OPTION2OPTION'')"
    and o6: "py_get (JDict [(''selected_option'', JStr ''y''), (''correct_answer'', JStr ''OPTION2OPTION''),
            (''options'', JList [JStr ''x'', JStr ''y'', JStr ''z''])]) ''options'' (JList []) = Inr (JList [JStr ''x'', JStr ''y'', JStr ''z''])"
    by (simp_all add: py_get_def)
  have h6: "startswith (strip (upper ''OPTION2OPTION'')) ''OPTION''"
      "py_int 4300 (replace (strip (upper ''OPTION2OPTION'')) ''OPTION'') = Inr 2"
    and v6: "(lower (strip ''y'') = lower (strip ''y'')) = True"
    by code_simp+
  have r6: "check_quiz_answer 4300
     (JDict [(''selected_option'', JStr ''y''), (''correct_answer'', JStr ''OPTION2OPTION''),
            (''options'', JList [JStr ''x'', JStr ''y'', JStr ''z''])]) =
     Inr (JDict [(''is_correct'', JBool True), (''correct_answer'', JStr ''y'')])"
    using quiz_check_resolution [OF s6 c6 o6, where L = 4300 and k = 2 and t = "''y''"] h6 v6 by simp
  have s7: "py_get (JDict [(''selected_option'', JStr ''y''), (''correct_answer'', JStr ''OPTION 2''),
            (''options'', JList [JStr ''x'', JStr ''y'', JStr ''z''])]) ''selected_option'' (JStr '''') = Inr (JStr ''y'')"
    and c7: "py_get (JDict [(''selected_option'', JStr ''y''), (''correct_answer'', JStr ''OPTION 2''),
            (''options'', JList [JStr ''x'', JStr ''y'', JStr ''z''])]) ''correct_answer'' (JStr '''') = Inr (JStr ''OPTION 2'')"
    and o7: "py_get (JDict [(''selected_option'', JStr ''y''), (''correct_answer'', JStr ''OPTION 2''),
            (''options'', JList [JStr ''x'', JStr ''y'', JStr ''z''])]) ''options'' (JList []) = Inr (JList [JStr ''x'', JStr ''y'', JStr ''z''])"
    by (simp_all add: py_get_def)
  have h7: "startswith (strip (upper ''OPTION 2'')) ''OPTION''"
      "py_int 4300 (replace (strip (upper ''OPTION 2'')) ''OPTION'') = Inr 2"
    and v7: "(lower (strip ''y'') = lower (strip ''y'')) = True"
    by code_simp+
  have r7: "check_quiz_answer 4300
     (JDict [(''selected_option'', JStr ''y''), (''correct_answer'', JStr ''OPTION 2''),
            (''options'', JList [JStr ''x'', JStr ''y'', JStr ''z''])]) =
     Inr (JDict [(''is_correct'', JBool True), (''correct_answer'', JStr ''y'')])"
    using quiz_check_resolution [OF s7 c7 o7, where L = 4300 and k = 2 and t = "''y''"] h7 v7 by simp
  have s8: "py_get (JDict [(''selected_option'', JStr ''y''), (''correct_answer'', JStr ''OPTION02''),
            (''options'', JList [JStr ''x'', JStr ''y'', JStr ''z''])]) ''selected_option'' (JStr '''') = Inr (JStr ''y'')"
    and c8: "py_get (JDict [(''selected_option'', JStr ''y''), (''correct_answer'', JStr ''OPTION02''),
            (''options'', JList [JStr ''x'', JStr ''y'', JStr ''z''])]) ''correct_answer'' (JStr '''') = Inr (JStr ''OPTION02'')"
    and o8: "py_get (JDict [(''selected_option'', JStr ''y''), (''correct_answer'', JStr ''OPTION02''),
            (''options'', JList [JStr ''x'', JStr ''y'', JStr ''z''])]) ''options'' (JList []) = Inr (JList [JStr ''x'', JStr ''y'', JStr ''z''])"
    by (simp_all add: py_get_def)
  have h8: "startswith (strip (upper ''OPTION02'')) ''OPTION''"
      "py_int 4300 (replace (strip (upper ''OPTION02'')) ''OPTION'') = Inr 2"
    and v8: "(lower (strip ''y'') = lower (strip ''y'')) = True"
    by code_simp+
  have r8: "check_quiz_answer 4300
     (JDict [(''selected_option'', JStr ''y''), (''correct_answer'', JStr ''OPTION02''),
            (''options'', JList [JStr ''x'', JStr ''y'', JStr ''z''])]) =
     Inr (JDict [(''is_correct'', JBool True), (''correct_answer'', JStr ''y'')])"
    using quiz_check_resolution [OF s8 c8 o8, where L = 4300 and k = 2 and t = "''y''"] h8 v8 by simp
  have s9: "py_get (JDict [(''selected_option'', JStr ''y''), (''correct_answer'', JStr ''OPTION+2''),
            (''options'', JList [JStr ''x'', JStr ''y'', JStr ''z''])]) ''selected_option'' (JStr '''') = Inr (JStr ''y'')"
    and c9: "py_get (JDict [(''selected_option'', JStr ''y''), (''correct_answer'', JStr ''OPTION+2''),
            (''options'', JList [JStr ''x'', JStr ''y'', JStr ''z''])]) ''correct_answer'' (JStr '''') = Inr (JStr ''OPTION+2'')"
    and o9: "py_get (JDict [(''selected_option'', JStr ''y''), (''correct_answer'', JStr ''OPTION+2''),
            (''options'', JList [JStr ''x'', JStr ''y'', JStr ''z''])]) ''options'' (JList []) = Inr (JList [JStr ''x'', JStr ''y'', JStr ''z''])"
    by (simp_all add: py_get_def)
  have h9: "startswith (strip (upper ''OPTION+2'')) ''OPTION''"
      "py_int 4300 (replace (strip (upper ''OPTION+2'')) ''OPTION'') = Inr 2"
    and v9: "(lower (strip ''y'') = lower (strip ''y'')) = True"
    by code_simp+
  have r9: "check_quiz_answer 4300
     (JDict [(''selected_option'', JStr ''y''), (''correct_answer'', JStr ''OPTION+2''),
            (''options'', JList [JStr ''x'', JStr ''y'', JStr ''z''])]) =
     Inr (JDict [(''is_correct'', JBool True), (''correct_answer'', JStr ''y'')])"
    using quiz_check_resolution [OF s9 c9 o9, where L = 4300 and k = 2 and t = "''y''"] h9 v9 by simp
  have s10: "py_get (JDict [(''selected_option'', JStr ''x''), (''correct_answer'', JStr ''OPTION1_0''),
            (''options'', JList [JStr ''x'', JStr ''y'', JStr ''z''])]) ''selected_option'' (JStr '''') = Inr (JStr ''x'')"
    and c10: "py_get (JDict [(''selected_option'', JStr ''x''), (''correct_answer'', JStr ''OPTION1_0''),
            (''options'', JList [JStr ''x'', JStr ''y'', JStr ''z''])]) ''correct_answer'' (JStr '''') = Inr (JStr ''OPTION1_0'')"
    and o10: "py_get (JDict [(''selected_option'', JStr ''x''), (''correct_answer'', JStr ''OPTION1_0''),
            (''options'', JList [JStr ''x'', JStr ''y'', JStr ''z''])]) ''options'' (JList []) = Inr (JList [JStr ''x'', JStr ''y'', JStr ''z''])"
    by (simp_all add: py_get_def)
  have h10: "startswith (strip (upper ''OPTION1_0'')) ''OPTION''"
      "py_int 4300 (replace (strip (upper ''OPTION1_0'')) ''OPTION'') = Inr 10"
    by code_simp+
  have r10: "check_quiz_answer 4300
     (JDict [(''selected_option'', JStr ''x''), (''correct_answer'', JStr ''OPTION1_0''),
            (''options'', JList [JStr ''x'', JStr ''y'', JStr ''z''])]) =
     Inr (JDict [(''is_correct'', JBool True), (''correct_answer'', JStr ''x'')])"
    using quiz_check_resolution [OF s10 c10 o10, where L = 4300 and k = "10"] h10 by simp
  have s11: "py_get (JDict [(''selected_option'', JStr ''x''), (''correct_answer'', JStr ''OPTION-2''),
            (''options'', JList [JStr ''x'', JStr ''y'', JStr ''z''])]) ''selected_option'' (JStr '''') = Inr (JStr ''x'')"
    and c11: "py_get (JDict [(''selected_option'', JStr ''x''), (''correct_answer'', JStr ''OPTION-2''),
            (''options'', JList [JStr ''x'', JStr ''y'', JStr ''z''])]) ''correct_answer'' (JStr '''') = Inr (JStr ''OPTION-2'')"
    and o11: "py_get (JDict [(''selected_option'', JStr ''x''), (''correct_answer'', JStr ''OPTION-2''),
            (''options'', JList [JStr ''x'', JStr ''y'', JStr ''z''])]) ''options'' (JList []) = Inr (JList [JStr ''x'', JStr ''y'', JStr ''z''])"
    by (simp_all add: py_get_def)
  have h11: "startswith (strip (upper ''OPTION-2'')) ''OPTION''"
      "py_int 4300 (replace (strip (upper ''OPTION-2'')) ''OPTION'') = Inr (- 2)"
    by code_simp+
  have r11: "check_quiz_answer 4300
     (JDict [(''selected_option'', JStr ''x''), (''correct_answer'', JStr ''OPTION-2''),
            (''options'', JList [JStr ''x'', JStr ''y'', JStr ''z''])]) =
     Inr (JDict [(''is_correct'', JBool True), (''correct_answer'', JStr ''x'')])"
    using quiz_check_resolution [OF s11 c11 o11, where L = 4300 and k = "- 2"] h11 by simp
  have s12: "py_get (JDict [(''selected_option'', JStr ''x''), (''correct_answer'', JStr (''option'' @ [CHR 0x1C] @ ''2'')),
            (''options'', JList [JStr ''x'', JStr ''y'', JStr ''z''])]) ''selected_option'' (JStr '''') = Inr (JStr ''x'')"
    and c12: "py_get (JDict [(''selected_option'', JStr ''x''), (''correct_answer'', JStr (''option'' @ [CHR 0x1C] @ ''2'')),
            (''options'', JList [JStr ''x'', JStr ''y'', JStr ''z''])]) ''correct_answer'' (JStr '''') = Inr (JStr (''option'' @ [CHR 0x1C] @ ''2''))"
    and o12: "py_get (JDict [(''selected_option'', JStr ''x''), (''correct_answer'', JStr (''option'' @ [CHR 0x1C] @ ''2'')),
            (''options'', JList [JStr ''x'', JStr ''y'', JStr ''z''])]) ''options'' (JList []) = Inr (JList [JStr ''x'', JStr ''y'', JStr ''z''])"
    by (simp_all add: py_get_def)
  have h12: "startswith (strip (upper (''option'' @ [CHR 0x1C] @ ''2''))) ''OPTION''"
      "py_int 4300 (replace (strip (upper (''option'' @ [CHR 0x1C] @ ''2''))) ''OPTION'') = Inl ValueError"
    by code_simp+
  have r12: "check_quiz_answer 4300
     (JDict [(''selected_option'', JStr ''x''), (''correct_answer'', JStr (''option'' @ [CHR 0x1C] @ ''2'')),
            (''options'', JList [JStr ''x'', JStr ''y'', JStr ''z''])]) =
     Inr (JDict [(''is_correct'', JBool True), (''correct_answer'', JStr ''x'')])"
    using quiz_check_resolution [OF s12 c12 o12, where L = 4300] h12 by simp
  show ?thesis
    by (intro conjI) (rule r1 r2 r3 r4 r5 r6 r7 r8 r9 r10 r11 r12)+
qed

text \<open>
  C8 as it is worded fails on the code. With \<^verbatim>\<open>correct_answer = "OPTION9"\<close> and three options
  the index is out of range, and the resolved text is the selected option \<^verbatim>\<open>x\<close>, not the
  literal \<^verbatim>\<open>OPTION9\<close>: the answer counts as correct. With \<^verbatim>\<open>correct_answer = "Paris"\<close> the
  returned text is \<^verbatim>\<open>PARIS\<close>.
\<close>

theorem quiz_check_out_of_range_counterexample:
  "check_quiz_answer 4300
     (JDict [(''selected_option'', JStr ''x''), (''correct_answer'', JStr ''OPTION9''),
            (''options'', JList [JStr ''x'', JStr ''y'', JStr ''z''])]) =
     Inr (JDict [(''is_correct'', JBool True), (''correct_answer'', JStr ''x'')]) \<and>
   check_quiz_answer 4300
     (JDict [(''selected_option'', JStr ''x''), (''correct_answer'', JStr ''OPTION9''),
            (''options'', JList [JStr ''x'', JStr ''y'', JStr ''z''])]) \<noteq>
     Inr (JDict [(''is_correct'', JBool False), (''correct_answer'', JStr ''OPTION9'')]) \<and>
   check_quiz_answer 4300
     (JDict [(''selected_option'', JStr ''paris''), (''correct_answer'', JStr ''Paris''),
            (''options'', JList [JStr ''x'', JStr ''y'', JStr ''z''])]) =
     Inr (JDict [(''is_correct'', JBool True), (''correct_answer'', JStr ''PARIS'')])"
  by code_simp

section \<open>The thesaurus parser flattens the groups\<close>

lemma for_loop_extend:
  "list_all (\<lambda>g. case g of JList xs \<Rightarrow> True | _ \<Rightarrow> False) gs \<Longrightarrow>
   for_loop extend_step gs acc =
     Inr (acc @ concat (map (\<lambda>g. case g of JList xs \<Rightarrow> xs | _ \<Rightarrow> []) gs))"
proof (induction gs arbitrary: acc)
  case Nil
  then show ?case by simp
next
  case (Cons g gs)
  then obtain xs where g: "g = JList xs" by (cases g) auto
  from Cons show ?case
    by (simp add: g extend_step_def py_iter_def ebind_def)
qed

lemma group_words_flattened:
  assumes "case map_of m k of None \<Rightarrow> True | Some v \<Rightarrow> list_of_lists v"
  shows "group_words (JDict m) k = Inr (flattened m k)"
proof (cases "map_of m k")
  case None
  then show ?thesis
    by (simp add: group_words_def py_in_def ebind_def flattened_def)
next
  case (Some v)
  with assms obtain gs where v: "v = JList gs"
    and gs: "list_all (\<lambda>g. case g of JList xs \<Rightarrow> True | _ \<Rightarrow> False) gs"
    by (cases v) (auto simp: list_of_lists_def)
  from Some v for_loop_extend [OF gs, of "[]"] show ?thesis
    by (simp add: group_words_def py_in_def ebind_def flattened_def getitem_def for_in_def
        py_iter_def)
qed

lemma thesaurus_entry_of_shape:
  assumes "thesaurus_entry_shape entry" "meta_of entry = Some m"
  shows "\<exists>h p. thesaurus_entry_of entry =
           Inr (JDict [(''headword'', JStr h), (''part_of_speech'', p),
                       (''synonyms'', JList (flattened m ''syns'')),
                       (''antonyms'', JList (flattened m ''ants'')),
                       (''related_words'', JList (flattened m ''rel'')),
                       (''near_antonyms'', JList (flattened m ''near''))])"
proof -
  from assms(2) obtain kvs where entry: "entry = JDict kvs"
    and meta: "map_of kvs ''meta'' = Some (JDict m)"
    by (auto simp: meta_of_def split: json.splits option.splits)
  from assms have ident: "case map_of m ''id'' of None \<Rightarrow> True | Some v \<Rightarrow> is_str v"
    and groups: "\<And>k. k \<in> {''syns'', ''ants'', ''rel'', ''near''} \<Longrightarrow>
                  (case map_of m k of None \<Rightarrow> True | Some v \<Rightarrow> list_of_lists v)"
    by (auto simp: thesaurus_entry_shape_def)
  from ident obtain h where h: "headword_of entry = Inr h"
    by (auto simp: headword_of_def entry meta py_in_def getitem_def ebind_def is_str_def
        split: option.splits json.splits)
  have "\<exists>p. part_of_speech_of entry = Inr p"
    by (cases "map_of kvs ''fl''")
       (simp_all add: part_of_speech_of_def entry py_in_def getitem_def ebind_def)
  then obtain p where p: "part_of_speech_of entry = Inr p" ..
  have g: "group_words (JDict m) ''syns'' = Inr (flattened m ''syns'')"
      "group_words (JDict m) ''ants'' = Inr (flattened m ''ants'')"
      "group_words (JDict m) ''rel'' = Inr (flattened m ''rel'')"
      "group_words (JDict m) ''near'' = Inr (flattened m ''near'')"
    by (rule group_words_flattened, rule groups, simp)+
  have "thesaurus_entry_of entry =
           Inr (JDict [(''headword'', JStr h), (''part_of_speech'', p),
                       (''synonyms'', JList (flattened m ''syns'')),
                       (''antonyms'', JList (flattened m ''ants'')),
                       (''related_words'', JList (flattened m ''rel'')),
                       (''near_antonyms'', JList (flattened m ''near''))])"
    unfolding thesaurus_entry_of_def h p
    by (simp add: ebind_def entry meta py_in_def getitem_def g)
  then show ?thesis by blast
qed

lemma thesaurus_entry_of_total:
  "thesaurus_entry_shape entry \<Longrightarrow> \<exists>e. thesaurus_entry_of entry = Inr e"
proof -
  assume s: "thesaurus_entry_shape entry"
  then obtain m where "meta_of entry = Some m"
    by (auto simp: thesaurus_entry_shape_def split: option.splits)
  from thesaurus_entry_of_shape [OF s this] show ?thesis by blast
qed

lemma for_loop_thesaurus_step:
  "list_all thesaurus_entry_shape es \<Longrightarrow>
   \<exists>rs. for_loop thesaurus_step es acc = Inr (acc @ rs) \<and> length rs = length es \<and>
        (\<forall>i < length es. thesaurus_entry_of (es ! i) = Inr (rs ! i))"
proof (induction es arbitrary: acc)
  case Nil
  then show ?case by simp
next
  case (Cons e es)
  then obtain r where r: "thesaurus_entry_of e = Inr r"
    using thesaurus_entry_of_total [of e] by auto
  from Cons.prems have "list_all thesaurus_entry_shape es" by simp
  from Cons.IH [OF this, of "acc @ [r]"] obtain rs where
    rs: "for_loop thesaurus_step es (acc @ [r]) = Inr ((acc @ [r]) @ rs)"
    "length rs = length es" "\<forall>i < length es. thesaurus_entry_of (es ! i) = Inr (rs ! i)"
    by blast
  have "for_loop thesaurus_step (e # es) acc = Inr (acc @ (r # rs))"
    using rs(1) by (simp add: thesaurus_step_def r ebind_def)
  moreover have "\<forall>i < length (e # es). thesaurus_entry_of ((e # es) ! i) = Inr ((r # rs) ! i)"
    using r rs(3) by (auto simp: nth_Cons split: nat.splits)
  ultimately show ?case using rs(2)
    by (intro exI [of _ "r # rs"]) simp
qed

text \<open>
  C7. For a thesaurus response whose entries are objects with an object \<^verbatim>\<open>meta\<close>, each group
  \<^verbatim>\<open>syns\<close>, \<^verbatim>\<open>ants\<close>, \<^verbatim>\<open>rel\<close>, \<^verbatim>\<open>near\<close> a list of lists, the parser returns one record per entry,
  and the record's \<^verbatim>\<open>synonyms\<close>, \<^verbatim>\<open>antonyms\<close>, \<^verbatim>\<open>related_words\<close> and \<^verbatim>\<open>near_antonyms\<close> are the
  inner lists of the matching group, one after the other in their order. The meta
  \<^verbatim>\<open>{syns: [["a", "b"], ["c"]]}\<close> gives the synonyms \<^verbatim>\<open>["a", "b", "c"]\<close>.
\<close>

theorem thesaurus_groups_flattened:
  assumes "list_all thesaurus_entry_shape es"
  shows "\<exists>rs. process_thesaurus_response (JList es) word =
                 Inr (JDict [(''Thesaurus_Data'', JList rs)]) \<and>
              length rs = length es \<and>
              (\<forall>i < length es. \<forall>m. meta_of (es ! i) = Some m \<longrightarrow>
                 field (rs ! i) ''synonyms'' = JList (flattened m ''syns'') \<and>
                 field (rs ! i) ''antonyms'' = JList (flattened m ''ants'') \<and>
                 field (rs ! i) ''related_words'' = JList (flattened m ''rel'') \<and>
                 field (rs ! i) ''near_antonyms'' = JList (flattened m ''near''))"
proof -
  from for_loop_thesaurus_step [OF assms, of "[]"] obtain rs where
    rs: "for_loop thesaurus_step es [] = Inr rs" "length rs = length es"
    "\<forall>i < length es. thesaurus_entry_of (es ! i) = Inr (rs ! i)"
    by auto
  have resp: "process_thesaurus_response (JList es) word =
                Inr (JDict [(''Thesaurus_Data'', JList rs)])"
  proof (cases es)
    case Nil
    with rs show ?thesis by (simp add: process_thesaurus_response_def)
  next
    case (Cons e es')
    with rs(1) show ?thesis by (simp add: process_thesaurus_response_def ebind_def)
  qed
  have fields: "field (rs ! i) ''synonyms'' = JList (flattened m ''syns'') \<and>
                field (rs ! i) ''antonyms'' = JList (flattened m ''ants'') \<and>
                field (rs ! i) ''related_words'' = JList (flattened m ''rel'') \<and>
                field (rs ! i) ''near_antonyms'' = JList (flattened m ''near'')"
    if i: "i < length es" and m: "meta_of (es ! i) = Some m" for i m
  proof -
    from assms i have "thesaurus_entry_shape (es ! i)"
      by (simp add: list_all_length)
    from thesaurus_entry_of_shape [OF this m] rs(3) i show ?thesis
      by (auto simp: field_def getitem_def)
  qed
  from resp rs(2) fields show ?thesis by blast
qed

theorem thesaurus_groups_flattened_witness:
  "list_all thesaurus_entry_shape
     [JDict [(''meta'', JDict [(''syns'', JList [JList [JStr ''a'', JStr ''b''], JList [JStr ''c'']])])]] \<and>
   process_thesaurus_response
     (JList [JDict [(''meta'', JDict [(''syns'', JList [JList [JStr ''a'', JStr ''b''], JList [JStr ''c'']])])]])
     ''happy'' =
     Inr (JDict [(''Thesaurus_Data'',
       JList [JDict [(''headword'', JStr ''''), (''part_of_speech'', JStr ''''),
                     (''synonyms'', JList [JStr ''a'', JStr ''b'', JStr ''c'']),
                     (''antonyms'', JList []), (''related_words'', JList []),
                     (''near_antonyms'', JList [])]])])"
proof -
  let ?es = "[JDict [(''meta'', JDict [(''syns'', JList [JList [JStr ''a'', JStr ''b''], JList [JStr ''c'']])])]]"
  have s: "list_all thesaurus_entry_shape ?es"
    by code_simp
  have e: "process_thesaurus_response (JList ?es) ''happy'' =
     Inr (JDict [(''Thesaurus_Data'',
       JList [JDict [(''headword'', JStr ''''), (''part_of_speech'', JStr ''''),
                     (''synonyms'', JList [JStr ''a'', JStr ''b'', JStr ''c'']),
                     (''antonyms'', JList []), (''related_words'', JList []),
                     (''near_antonyms'', JList [])]])])"
    by code_simp
  show ?thesis
    using thesaurus_groups_flattened [OF s, of "''happy''"] s e by simp
qed

section \<open>The dictionary fetch\<close>

text \<open>
  C4. When the dictionary API answers with status 200 and a list whose first element is a
  string, the fetch returns a \<^verbatim>\<open>word_not_found\<close> error whose suggestions are the first five
  elements of the list (all of them when there are fewer), in their order. When it
  answers with the empty list, the fetch returns a \<^verbatim>\<open>word_not_found\<close> error that has no
  \<^verbatim>\<open>suggestions\<close> key.
\<close>

theorem dictionary_word_not_found:
  "(session_get r (calls m) (dict_url word) = Response 200 (Some (JList (JStr s # rest))) \<longrightarrow>
      fst (get_dictionary_data r m word) =
        JDict [(''error'', JStr ''word_not_found''), (''word'', JStr word),
               (''suggestions'', JList (take 5 (JStr s # rest)))]) \<and>
   (session_get r (calls m) (dict_url word) = Response 200 (Some (JList [])) \<longrightarrow>
      fst (get_dictionary_data r m word) =
        JDict [(''error'', JStr ''word_not_found''), (''word'', JStr word)] \<and>
      py_in ''suggestions'' (fst (get_dictionary_data r m word)) = Inr False)"
  by (simp add: get_dictionary_data_def dictionary_result_def is_str_def error_result_def
      py_in_def Let_def)

theorem dictionary_word_not_found_witness:
  "fst (get_dictionary_data
         \<lparr>session_get = (\<lambda>log url. Response 200 (Some (JList
            [JStr ''cat'', JStr ''cot'', JStr ''cut'', JStr ''act'', JStr ''art'', JStr ''ant'',
             JStr ''apt''])      )),
          translator_translate = (\<lambda>log t. Inr t)\<rparr>
         \<lparr>cache = Map.empty, calls = []\<rparr> ''ct'') =
     JDict [(''error'', JStr ''word_not_found''), (''word'', JStr ''ct''),
            (''suggestions'', JList [JStr ''cat'', JStr ''cot'', JStr ''cut'', JStr ''act'', JStr ''art''])] \<and>
   fst (get_dictionary_data
         \<lparr>session_get = (\<lambda>log url. Response 200 (Some (JList []))),
          translator_translate = (\<lambda>log t. Inr t)\<rparr>
         \<lparr>cache = Map.empty, calls = []\<rparr> ''ct'') =
     JDict [(''error'', JStr ''word_not_found''), (''word'', JStr ''ct'')]"
  using dictionary_word_not_found
      [of "\<lparr>session_get = (\<lambda>log url. Response 200 (Some (JList
            [JStr ''cat'', JStr ''cot'', JStr ''cut'', JStr ''act'', JStr ''art'', JStr ''ant'',
             JStr ''apt'']))),
          translator_translate = (\<lambda>log t. Inr t)\<rparr>"
          "\<lparr>cache = Map.empty, calls = []\<rparr>" "''ct''" "''cat''"
          "[JStr ''cot'', JStr ''cut'', JStr ''act'', JStr ''art'', JStr ''ant'', JStr ''apt'']"]
    dictionary_word_not_found
      [of "\<lparr>session_get = (\<lambda>log url. Response 200 (Some (JList []))),
          translator_translate = (\<lambda>log t. Inr t)\<rparr>"
          "\<lparr>cache = Map.empty, calls = []\<rparr>" "''ct''"]
  by simp

section \<open>The word lookup and its cache\<close>

lemma get_dictionary_data_state:
  "snd (get_dictionary_data r m word) = m\<lparr>calls := calls m @ [HttpGet (dict_url word)]\<rparr>"
  by (simp add: get_dictionary_data_def Let_def)

lemma get_thesaurus_data_state:
  "snd (get_thesaurus_data r m word) = m\<lparr>calls := calls m @ [HttpGet (thesaurus_url word)]\<rparr>"
  by (simp add: get_thesaurus_data_def Let_def)

lemma translate_to_turkish_state:
  "snd (translate_to_turkish r m text) = m\<lparr>calls := calls m @ [Translate text]\<rparr>"
  by (simp add: translate_to_turkish_def)

lemma map_of_dict_set:
  "map_of (dict_set d k v) k' = (if k' = k then Some v else map_of d k')"
  by (induction d) auto

lemma map_of_dict_update_None:
  "map_of d k = None \<Longrightarrow> k \<notin> fst ` set other \<Longrightarrow> map_of (dict_update d other) k = None"
  unfolding dict_update_def
proof (induction other arbitrary: d)
  case Nil
  then show ?case by simp
next
  case (Cons kv other)
  then have "map_of (dict_set d (fst kv) (snd kv)) k = None"
    by (auto simp: map_of_dict_set)
  with Cons show ?case by simp
qed

lemma process_thesaurus_response_keys:
  "process_thesaurus_response data word = Inr v \<Longrightarrow> \<exists>x. v = JDict [(''Thesaurus_Data'', x)]"
  by (auto simp: process_thesaurus_response_def ebind_def split: json.splits list.splits sum.splits)

lemma get_thesaurus_data_keys:
  "\<exists>x. fst (get_thesaurus_data r m word) = JDict [(''Thesaurus_Data'', x)]"
proof (cases "thesaurus_result (session_get r (calls m) (thesaurus_url word)) word")
  case (Inl e)
  then show ?thesis by (simp add: get_thesaurus_data_def Let_def)
next
  case (Inr v)
  then have "\<exists>x. v = JDict [(''Thesaurus_Data'', x)]"
    by (auto simp: thesaurus_result_def split: http_outcome.splits if_splits option.splits
        json.splits list.splits dest: process_thesaurus_response_keys)
  with Inr show ?thesis by (simp add: get_thesaurus_data_def Let_def)
qed

lemma not_error_items:
  "py_in ''error'' v = Inr False \<Longrightarrow> map_of (items_of v) ''error'' = None"
  by (cases v) (auto simp: py_in_def items_of_def)

lemma process_dictionary_response_dict:
  "process_dictionary_response data word = Inr v \<Longrightarrow> \<exists>kvs. v = JDict kvs"
  unfolding process_dictionary_response_def ebind_def
  by (auto split: sum.splits)

lemma get_dictionary_data_dict: "\<exists>kvs. fst (get_dictionary_data r m word) = JDict kvs"
proof (cases "dictionary_result (session_get r (calls m) (dict_url word)) word")
  case (Inl e)
  then show ?thesis by (simp add: get_dictionary_data_def Let_def error_result_def)
next
  case (Inr v)
  then have "\<exists>kvs. v = JDict kvs"
    by (auto simp: dictionary_result_def error_result_def
        split: http_outcome.splits if_splits option.splits json.splits list.splits
        dest: process_dictionary_response_dict)
  with Inr show ?thesis by (simp add: get_dictionary_data_def Let_def)
qed

text \<open>What \<open>lookup\<close> does when the word is not cached.\<close>

lemma lookup_miss:
  assumes "cache m word = None"
  shows "(\<exists>e. lookup r m word = (Inr e, m\<lparr>calls := calls m @ [HttpGet (dict_url word)]\<rparr>) \<and>
              is_error e) \<or>
         (\<exists>c. lookup r m word =
            (Inr c, \<lparr>cache = (cache m)(word \<mapsto> c),
                     calls = calls m @ [HttpGet (dict_url word), HttpGet (thesaurus_url word),
                                        Translate word]\<rparr>) \<and>
            \<not> is_error c)"
proof -
  obtain dict_data m1 where d: "get_dictionary_data r m word = (dict_data, m1)"
    by (cases "get_dictionary_data r m word")
  with get_dictionary_data_state [of r m word]
  have m1: "m1 = m\<lparr>calls := calls m @ [HttpGet (dict_url word)]\<rparr>" by simp
  from d get_dictionary_data_dict [of r m word] obtain kvs where
    kvs: "dict_data = JDict kvs" by auto
  then obtain has_error where Inr: "py_in ''error'' dict_data = Inr has_error"
    by (simp add: py_in_def)
  show ?thesis
  proof (cases has_error)
    case True
    with Inr assms d m1 show ?thesis by (simp add: lookup_def is_error_def)
  next
    case False
    obtain thesaurus_data m2 where t: "get_thesaurus_data r m1 word = (thesaurus_data, m2)"
      by (cases "get_thesaurus_data r m1 word")
    with get_thesaurus_data_state [of r m1 word]
    have m2: "m2 = m1\<lparr>calls := calls m1 @ [HttpGet (thesaurus_url word)]\<rparr>" by simp
    from t get_thesaurus_data_keys [of r m1 word] obtain x where
      x: "thesaurus_data = JDict [(''Thesaurus_Data'', x)]" by auto
    obtain translation m3 where tr: "translate_to_turkish r m2 word = (translation, m3)"
      by (cases "translate_to_turkish r m2 word")
    with translate_to_turkish_state [of r m2 word]
    have m3: "m3 = m2\<lparr>calls := calls m2 @ [Translate word]\<rparr>" by simp
    let ?c = "JDict (dict_set (dict_update (items_of dict_data) (items_of thesaurus_data))
                       ''Turkish_Translation'' (JStr translation))"
    from Inr False have "map_of (items_of dict_data) ''error'' = None"
      by (simp add: not_error_items)
    then have "map_of (dict_update (items_of dict_data) (items_of thesaurus_data)) ''error'' = None"
      by (rule map_of_dict_update_None) (simp add: x items_of_def)
    then have ne: "\<not> is_error ?c"
      by (simp add: is_error_def py_in_def map_of_dict_set)
    have "lookup r m word = (Inr ?c, m3\<lparr>cache := (cache m3)(word \<mapsto> ?c)\<rparr>)"
      using assms d Inr False t tr by (simp add: lookup_def Let_def)
    also have "m3\<lparr>cache := (cache m3)(word \<mapsto> ?c)\<rparr> =
               \<lparr>cache = (cache m)(word \<mapsto> ?c),
                calls = calls m @ [HttpGet (dict_url word), HttpGet (thesaurus_url word),
                                   Translate word]\<rparr>"
      by (simp add: m1 m2 m3)
    finally show ?thesis using ne by blast
  qed
qed

lemma lookup_hit: "cache m word = Some v \<Longrightarrow> lookup r m word = (Inr v, m)"
  by (simp add: lookup_def)

lemma get_word_data_lookup:
  "lookup r m (strip (lower w)) = (Inr v, m') \<Longrightarrow> get_word_data r m w = (v, m')"
  by (simp add: get_word_data_def Let_def)

text \<open>
  C5. When a lookup succeeds (its result has no \<^verbatim>\<open>error\<close> key), a following lookup of any
  input that lowers and trims to the same string returns the same result and leaves the
  manager as it is, its record of remote calls included, whatever the remote services
  would answer: no dictionary, thesaurus or translation call is made.
\<close>

theorem cached_lookup_no_remote_call:
  assumes first: "get_word_data r m w = (res, m1)"
    and ok: "\<not> is_error res"
    and same: "strip (lower w2) = strip (lower w)"
  shows "get_word_data r2 m1 w2 = (res, m1) \<and> calls (snd (get_word_data r2 m1 w2)) = calls m1"
proof -
  let ?k = "strip (lower w)"
  have cached: "cache m1 ?k = Some res"
  proof (cases "cache m ?k")
    case (Some v)
    from get_word_data_lookup [OF lookup_hit [OF Some]] first show ?thesis
      using Some by simp
  next
    case None
    from lookup_miss [OF None, of r] show ?thesis
    proof (elim disjE exE conjE)
      fix e
      assume "lookup r m ?k = (Inr e, m\<lparr>calls := calls m @ [HttpGet (dict_url ?k)]\<rparr>)"
        and "is_error e"
      with get_word_data_lookup first ok show ?thesis by fastforce
    next
      fix c
      assume l: "lookup r m ?k =
            (Inr c, \<lparr>cache = (cache m)(?k \<mapsto> c),
                     calls = calls m @ [HttpGet (dict_url ?k), HttpGet (thesaurus_url ?k),
                                        Translate ?k]\<rparr>)"
      from get_word_data_lookup [OF l] first show ?thesis by auto
    qed
  qed
  from get_word_data_lookup [of r2 m1 w2 res m1] lookup_hit [OF cached, of r2] same
  show ?thesis by simp
qed

theorem cached_lookup_no_remote_call_witness:
  "\<not> is_error (fst (get_word_data
       \<lparr>session_get = (\<lambda>log url. Response 200 (Some (JList [JDict []]))),
        translator_translate = (\<lambda>log t. Inr ''kedi'')\<rparr>
       \<lparr>cache = Map.empty, calls = []\<rparr> ''Cat '')) \<and>
   strip (lower '' CAT'') = strip (lower ''Cat '') \<and>
   get_word_data
       \<lparr>session_get = (\<lambda>log url. Raises RequestException),
        translator_translate = (\<lambda>log t. Inl OtherException)\<rparr>
       (snd (get_word_data
         \<lparr>session_get = (\<lambda>log url. Response 200 (Some (JList [JDict []]))),
          translator_translate = (\<lambda>log t. Inr ''kedi'')\<rparr>
         \<lparr>cache = Map.empty, calls = []\<rparr> ''Cat '')) '' CAT'' =
     get_word_data
       \<lparr>session_get = (\<lambda>log url. Response 200 (Some (JList [JDict []]))),
        translator_translate = (\<lambda>log t. Inr ''kedi'')\<rparr>
       \<lparr>cache = Map.empty, calls = []\<rparr> ''Cat ''"
proof -
  let ?r = "\<lparr>session_get = (\<lambda>log url. Response 200 (Some (JList [JDict []]))),
             translator_translate = (\<lambda>log t. Inr ''kedi'')\<rparr>"
  let ?r2 = "\<lparr>session_get = (\<lambda>log url. Raises RequestException),
              translator_translate = (\<lambda>log t. Inl OtherException)\<rparr>"
  let ?m = "\<lparr>cache = Map.empty, calls = []\<rparr>"
  have ok: "\<not> is_error (fst (get_word_data ?r ?m ''Cat ''))"
    by code_simp
  have same: "strip (lower '' CAT'') = strip (lower ''Cat '')"
    by code_simp
  have first: "get_word_data ?r ?m ''Cat '' =
                 (fst (get_word_data ?r ?m ''Cat ''), snd (get_word_data ?r ?m ''Cat ''))"
    by simp
  from cached_lookup_no_remote_call [OF first ok same, of ?r2] ok same
  show ?thesis by simp
qed

text \<open>
  C10. When \<^verbatim>\<open>get_word_data\<close> returns an error result, the cache is what it was before the
  call. No call stores an error result: when no cached value is an error, none is after
  the call. So when a lookup fails, the same word looked up again is not served from the
  cache: the dictionary API is called again.
\<close>

theorem error_results_not_cached:
  assumes call: "get_word_data r m w = (res, m1)"
  shows "(is_error res \<longrightarrow> cache m1 = cache m) \<and>
         ((\<forall>k v. cache m k = Some v \<longrightarrow> \<not> is_error v) \<longrightarrow>
            (\<forall>k v. cache m1 k = Some v \<longrightarrow> \<not> is_error v)) \<and>
         (is_error res \<and> (\<forall>k v. cache m k = Some v \<longrightarrow> \<not> is_error v) \<longrightarrow>
            (\<exists>more. calls (snd (get_word_data r2 m1 w)) =
                      calls m1 @ HttpGet (dict_url (strip (lower w))) # more))"
proof -
  let ?k = "strip (lower w)"
  consider (hit) v where "cache m ?k = Some v" "res = v" "m1 = m"
    | (failed) "cache m ?k = None" "is_error res"
        "m1 = m\<lparr>calls := calls m @ [HttpGet (dict_url ?k)]\<rparr>"
    | (stored) "cache m ?k = None" "\<not> is_error res"
        "m1 = \<lparr>cache = (cache m)(?k \<mapsto> res),
               calls = calls m @ [HttpGet (dict_url ?k), HttpGet (thesaurus_url ?k), Translate ?k]\<rparr>"
  proof (cases "cache m ?k")
    case (Some v)
    from get_word_data_lookup [OF lookup_hit [OF Some], of r] call have "res = v" "m1 = m"
      by simp_all
    with Some hit show ?thesis by blast
  next
    case None
    from lookup_miss [OF None, of r] show ?thesis
    proof (elim disjE exE conjE)
      fix e
      assume l: "lookup r m ?k = (Inr e, m\<lparr>calls := calls m @ [HttpGet (dict_url ?k)]\<rparr>)"
        and e: "is_error e"
      from get_word_data_lookup [OF l] call e None failed show ?thesis by simp
    next
      fix c
      assume l: "lookup r m ?k =
            (Inr c, \<lparr>cache = (cache m)(?k \<mapsto> c),
                     calls = calls m @ [HttpGet (dict_url ?k), HttpGet (thesaurus_url ?k),
                                        Translate ?k]\<rparr>)"
        and c: "\<not> is_error c"
      from get_word_data_lookup [OF l] call c None stored show ?thesis by simp
    qed
  qed
  then show ?thesis
  proof cases
    case hit
    then show ?thesis by auto
  next
    case failed
    have again: "\<exists>more. calls (snd (get_word_data r2 m1 w)) =
                   calls m1 @ HttpGet (dict_url ?k) # more"
    proof -
      from failed have none: "cache m1 ?k = None" by simp
      from lookup_miss [OF none, of r2] show ?thesis
      proof (elim disjE exE conjE)
        fix e
        assume "lookup r2 m1 ?k = (Inr e, m1\<lparr>calls := calls m1 @ [HttpGet (dict_url ?k)]\<rparr>)"
        from get_word_data_lookup [OF this] show ?thesis by simp
      next
        fix c
        assume "lookup r2 m1 ?k =
            (Inr c, \<lparr>cache = (cache m1)(?k \<mapsto> c),
                     calls = calls m1 @ [HttpGet (dict_url ?k), HttpGet (thesaurus_url ?k),
                                         Translate ?k]\<rparr>)"
        from get_word_data_lookup [OF this] show ?thesis by simp
      qed
    qed
    from failed have "cache m1 = cache m" by simp
    with again show ?thesis by simp
  next
    case stored
    then show ?thesis by auto
  qed
qed

theorem error_results_not_cached_witness:
  "is_error (fst (get_word_data
       \<lparr>session_get = (\<lambda>log url. Response 200 (Some (JList []))),
        translator_translate = (\<lambda>log t. Inr ''kedi'')\<rparr>
       \<lparr>cache = Map.empty, calls = []\<rparr> ''Qzx'')) \<and>
   cache (snd (get_word_data
       \<lparr>session_get = (\<lambda>log url. Response 200 (Some (JList []))),
        translator_translate = (\<lambda>log t. Inr ''kedi'')\<rparr>
       \<lparr>cache = Map.empty, calls = []\<rparr> ''Qzx'')) = Map.empty \<and>
   calls (snd (get_word_data
       \<lparr>session_get = (\<lambda>log url. Response 200 (Some (JList []))),
        translator_translate = (\<lambda>log t. Inr ''kedi'')\<rparr>
       (snd (get_word_data
         \<lparr>session_get = (\<lambda>log url. Response 200 (Some (JList []))),
          translator_translate = (\<lambda>log t. Inr ''kedi'')\<rparr>
         \<lparr>cache = Map.empty, calls = []\<rparr> ''Qzx'')) ''Qzx'')) =
     [HttpGet (dict_url ''qzx''), HttpGet (dict_url ''qzx'')]"
proof -
  let ?r = "\<lparr>session_get = (\<lambda>log url. Response 200 (Some (JList []))),
             translator_translate = (\<lambda>log t. Inr ''kedi'')\<rparr>"
  let ?m = "\<lparr>cache = Map.empty, calls = []\<rparr>"
  have k: "strip (lower ''Qzx'') = ''qzx''"
    by code_simp
  have first: "get_word_data ?r ?m ''Qzx'' =
     (error_result ''word_not_found'' ''qzx'', \<lparr>cache = Map.empty, calls = [HttpGet (dict_url ''qzx'')]\<rparr>)"
    by (simp add: get_word_data_def k lookup_def get_dictionary_data_def dictionary_result_def
        error_result_def py_in_def Let_def)
  have second: "get_word_data ?r \<lparr>cache = Map.empty, calls = [HttpGet (dict_url ''qzx'')]\<rparr> ''Qzx'' =
     (error_result ''word_not_found'' ''qzx'',
      \<lparr>cache = Map.empty, calls = [HttpGet (dict_url ''qzx''), HttpGet (dict_url ''qzx'')]\<rparr>)"
    by (simp add: get_word_data_def k lookup_def get_dictionary_data_def dictionary_result_def
        error_result_def py_in_def Let_def)
  have err: "is_error (error_result ''word_not_found'' ''qzx'')"
    by (simp add: is_error_def error_result_def py_in_def)
  have inv: "\<forall>k v. cache ?m k = Some v \<longrightarrow> \<not> is_error v"
    by simp
  from error_results_not_cached [OF first, of ?r] err inv first second
  show ?thesis by simp
qed

section \<open>Stripping the vendor tokens\<close>

lemma replace_length_le: "length (replace s tag) \<le> length s"
proof (induction s tag rule: replace.induct)
  case (1 tag)
  then show ?case by simp
next
  case (2 c cs tag)
  show ?case
  proof (cases "tag \<noteq> [] \<and> startswith (c # cs) tag")
    case True
    with 2 have "length (replace (drop (length tag) (c # cs)) tag)
                 \<le> length (drop (length tag) (c # cs))" by simp
    with True show ?thesis by simp
  next
    case False
    with 2 show ?thesis by auto
  qed
qed

lemma replace_no_occurrence:
  "tag \<noteq> [] \<Longrightarrow> \<not> contains_str s tag \<Longrightarrow> replace s tag = s"
  by (induction s) auto

lemma replace_occurrence_shorter:
  "tag \<noteq> [] \<Longrightarrow> contains_str s tag \<Longrightarrow> length (replace s tag) < length s"
proof (induction s tag rule: replace.induct)
  case (1 tag)
  then show ?case by simp
next
  case (2 c cs tag)
  show ?case
  proof (cases "startswith (c # cs) tag")
    case True
    have "length (replace (drop (length tag) (c # cs)) tag)
          \<le> length (drop (length tag) (c # cs))" by (rule replace_length_le)
    also have "\<dots> < length (c # cs)" using \<open>tag \<noteq> []\<close> by simp
    finally show ?thesis using True \<open>tag \<noteq> []\<close> by simp
  next
    case False
    with 2 show ?thesis by auto
  qed
qed

lemma strip_tags_Cons: "strip_tags (t # ts) s = strip_tags ts (replace s t)"
  by (simp add: strip_tags_def)

lemma strip_tags_length_le: "length (strip_tags tags s) \<le> length s"
proof (induction tags arbitrary: s)
  case Nil
  then show ?case by (simp add: strip_tags_def)
next
  case (Cons t ts)
  have "length (strip_tags ts (replace s t)) \<le> length (replace s t)" by (rule Cons.IH)
  also have "\<dots> \<le> length s" by (rule replace_length_le)
  finally show ?case by (simp only: strip_tags_Cons)
qed

lemma strip_tags_absent:
  "[] \<notin> set tags \<Longrightarrow> \<not> list_ex (contains_str s) tags \<Longrightarrow> strip_tags tags s = s"
proof (induction tags)
  case Nil
  then show ?case by (simp add: strip_tags_def)
next
  case (Cons t ts)
  from Cons.prems have t: "t \<noteq> []" by auto
  with Cons.prems have "replace s t = s" by (simp add: replace_no_occurrence)
  with Cons show ?case by (simp add: strip_tags_Cons)
qed

lemma strip_tags_shorter:
  "[] \<notin> set tags \<Longrightarrow> list_ex (contains_str s) tags \<Longrightarrow> length (strip_tags tags s) < length s"
proof (induction tags)
  case Nil
  then show ?case by simp
next
  case (Cons t ts)
  from Cons.prems have t: "t \<noteq> []" by auto
  show ?case
  proof (cases "contains_str s t")
    case True
    have "length (strip_tags ts (replace s t)) \<le> length (replace s t)"
      by (rule strip_tags_length_le)
    also have "\<dots> < length s" using t True by (rule replace_occurrence_shorter)
    finally show ?thesis by (simp only: strip_tags_Cons)
  next
    case False
    with t have "replace s t = s" by (simp add: replace_no_occurrence)
    with Cons False show ?thesis by (simp add: strip_tags_Cons)
  qed
qed

lemma strip_length_le: "length (strip s) \<le> length s"
proof -
  have "length (strip s) \<le> length (dropWhile is_space s)"
    unfolding strip_def length_rev
    using length_dropWhile_le [of is_space "rev (dropWhile is_space s)"] by simp
  also have "\<dots> \<le> length s" by (rule length_dropWhile_le)
  finally show ?thesis .
qed

lemma clean_text_twice:
  assumes "[] \<notin> set tags"
  shows "(clean_text tags (clean_text tags t) = clean_text tags t) =
         (\<not> list_ex (contains_str (clean_text tags t)) tags)"
proof (cases "list_ex (contains_str (clean_text tags t)) tags")
  case True
  have "length (clean_text tags (clean_text tags t))
        \<le> length (strip_tags tags (clean_text tags t))"
    by (simp add: clean_text_def strip_length_le)
  also have "\<dots> < length (clean_text tags t)"
    using assms True by (rule strip_tags_shorter)
  finally have "clean_text tags (clean_text tags t) \<noteq> clean_text tags t" by auto
  with True show ?thesis by simp
next
  case False
  with assms have "strip_tags tags (clean_text tags t) = clean_text tags t"
    by (rule strip_tags_absent)
  then have "clean_text tags (clean_text tags t) = strip (clean_text tags t)"
    by (simp add: clean_text_def)
  also have "\<dots> = clean_text tags t" by (simp add: clean_text_def strip_strip)
  finally show ?thesis using False by simp
qed

text \<open>
  C6, as the code has it. The tokens of a call site are removed one kind after the other,
  so removing one token can put the pieces of another together. For each of the three
  token sets (etymology, definition, example) and every text, stripping and trimming
  twice gives what doing it once gives exactly when the text stripped once holds none of
  the tokens of the set.
\<close>

theorem tag_stripping_twice:
  assumes "tags \<in> {etymology_tags, definition_tags, example_tags}"
  shows "(clean_text tags (clean_text tags t) = clean_text tags t) =
         (\<not> list_ex (contains_str (clean_text tags t)) tags)"
proof -
  from assms have "[] \<notin> set tags"
    by (auto simp: etymology_tags_def definition_tags_def example_tags_def)
  then show ?thesis by (rule clean_text_twice)
qed

theorem tag_stripping_twice_witness:
  "etymology_tags \<in> {etymology_tags, definition_tags, example_tags} \<and>
   \<not> list_ex (contains_str (clean_text etymology_tags ''from {it}catt{/it} '')) etymology_tags \<and>
   clean_text etymology_tags (clean_text etymology_tags ''from {it}catt{/it} '') =
     clean_text etymology_tags ''from {it}catt{/it} '' \<and>
   clean_text etymology_tags ''from {it}catt{/it} '' = ''from catt''"
proof -
  have m: "etymology_tags \<in> {etymology_tags, definition_tags, example_tags}"
    by simp
  have n: "\<not> list_ex (contains_str (clean_text etymology_tags ''from {it}catt{/it} '')) etymology_tags"
    by code_simp
  have v: "clean_text etymology_tags ''from {it}catt{/it} '' = ''from catt''"
    by code_simp
  from tag_stripping_twice [OF m, of "''from {it}catt{/it} ''"] m n v
  show ?thesis by simp
qed

text \<open>
  C6 as it is worded fails for each of the three token sets: in \<^verbatim>\<open>{i{it}t}\<close> the first pass
  removes the inner \<^verbatim>\<open>{it}\<close> and leaves \<^verbatim>\<open>{it}\<close>, which a second pass removes; likewise
  \<^verbatim>\<open>{s|}x|\<close> leaves \<^verbatim>\<open>{sx|\<close> and \<^verbatim>\<open>{w{wi}i}\<close> leaves \<^verbatim>\<open>{wi}\<close>.
\<close>

theorem tag_stripping_not_idempotent_counterexample:
  "clean_text etymology_tags (clean_text etymology_tags ''{i{it}t}'')
     \<noteq> clean_text etymology_tags ''{i{it}t}'' \<and>
   clean_text definition_tags (clean_text definition_tags ''{s|}x|'')
     \<noteq> clean_text definition_tags ''{s|}x|'' \<and>
   clean_text example_tags (clean_text example_tags ''{w{wi}i}'')
     \<noteq> clean_text example_tags ''{w{wi}i}''"
  by code_simp

section \<open>Transport failures of the dictionary fetch\<close>

lemma lookup_returns: "\<exists>v. fst (lookup r m word) = Inr v"
proof (cases "cache m word")
  case None
  from lookup_miss [OF None, of r] show ?thesis by auto
next
  case (Some v)
  then show ?thesis by (simp add: lookup_hit)
qed

text \<open>
  C3 against the code. \<^verbatim>\<open>get_dictionary_data\<close> catches every exception of its \<^verbatim>\<open>try\<close> block
  and answers \<^verbatim>\<open>api_error\<close>, so the \<^verbatim>\<open>RequestException\<close> handler of \<^verbatim>\<open>get_word_data\<close> is never
  reached (\<open>lookup_returns\<close>). When \<^verbatim>\<open>session.get\<close> raises a \<^verbatim>\<open>RequestException\<close> for the
  dictionary URL, the lookup of \<^verbatim>\<open>cat\<close> with an empty cache returns
  \<^verbatim>\<open>{"error": "api_error", "word": "cat"}\<close>, the result it also returns for the status 500.
\<close>

theorem transport_failure_reported_as_api_error:
  "fst (get_word_data
         \<lparr>session_get = (\<lambda>log url. Raises RequestException),
          translator_translate = (\<lambda>log t. Inr t)\<rparr>
         \<lparr>cache = Map.empty, calls = []\<rparr> ''cat'') =
     JDict [(''error'', JStr ''api_error''), (''word'', JStr ''cat'')] \<and>
   fst (get_word_data
         \<lparr>session_get = (\<lambda>log url. Response 500 None),
          translator_translate = (\<lambda>log t. Inr t)\<rparr>
         \<lparr>cache = Map.empty, calls = []\<rparr> ''cat'') =
     JDict [(''error'', JStr ''api_error''), (''word'', JStr ''cat'')]"
  by code_simp

section \<open>The dictionary parser on malformed entries\<close>

text \<open>
  C1 against the code. An entry without any key gives the record of defaults. An entry
  whose \<^verbatim>\<open>dt\<close> list holds an empty list makes \<^verbatim>\<open>dt_item[0]\<close> raise an \<^verbatim>\<open>IndexError\<close>; the
  parser raises, and the lookup of the word fails with \<^verbatim>\<open>api_error\<close>. The etymology loop
  guards the same access with \<^verbatim>\<open>isinstance(et_item, list) and len(et_item) > 1\<close>, and
  the audio extraction skips an entry that is no dict.
\<close>

theorem dictionary_parser_raises_on_empty_dt_item:
  "process_dictionary_response (JList [JDict []]) ''cat'' =
     Inr (JDict [(''Word'', JStr ''Cat''),
                 (''Dictionary_Data'',
                  JList [JDict [(''headword'', JStr ''''), (''part_of_speech'', JStr ''''),
                                (''pronunciation'', JStr ''''), (''etymology'', JStr ''''),
                                (''definitions'', JList []), (''examples'', JList [])]]),
                 (''Part_of_Speech'', JStr ''''), (''Main_Definition'', JStr ''''),
                 (''Main_Example'', JStr ''''), (''Pronunciation'', JStr ''''),
                 (''Audio_Files'', JList [])]) \<and>
   process_dictionary_response
     (JList [JDict [(''def'', JList [JDict [(''sseq'',
        JList [JList [JList [JStr ''sense'', JDict [(''dt'', JList [JList []])]]]])]])]])
     ''cat'' = Inl IndexError \<and>
   fst (get_word_data
         \<lparr>session_get = (\<lambda>log url. Response 200 (Some
            (JList [JDict [(''def'', JList [JDict [(''sseq'',
               JList [JList [JList [JStr ''sense'', JDict [(''dt'', JList [JList []])]]]])]])]]))),
          translator_translate = (\<lambda>log t. Inr t)\<rparr>
         \<lparr>cache = Map.empty, calls = []\<rparr> ''cat'') =
     JDict [(''error'', JStr ''api_error''), (''word'', JStr ''cat'')]"
  by code_simp

end
